theory Spec2Isabelle
  imports Main "HOL-Library.Sublist"
begin

section \<open>Python strings\<close>

text \<open>
  A Python \<open>str\<close> is modelled as a \<open>string\<close>; one \<open>char\<close> stands for one code point,
  so \<open>length\<close> is Python's \<open>len\<close>. The helpers below are the string methods that
  \<open>spotify_to_youtube.py\<close> calls.
\<close>

text \<open>\<open>sub in s\<close>\<close>

fun sub_in :: "string \<Rightarrow> string \<Rightarrow> bool" where
  "sub_in sub [] = (sub = [])"
| "sub_in sub (c # cs) = (prefix sub (c # cs) \<or> sub_in sub cs)"

text \<open>
  \<open>s.split(sep)\<close> for a non-empty separator: the pieces between the non-overlapping
  occurrences of \<open>sep\<close>, scanned from the left. \<open>acc\<close> is the piece being read.
  (Python raises ValueError on an empty separator; the source only passes the constants
  \<open>'album/'\<close>, \<open>'playlist/'\<close> and \<open>'?'\<close>. Here an empty separator never matches.)
\<close>

function split_acc :: "string \<Rightarrow> string \<Rightarrow> string \<Rightarrow> string list" where
  "split_acc sep acc [] = [acc]"
| "split_acc sep acc (c # cs) =
     (if sep \<noteq> [] \<and> prefix sep (c # cs)
      then acc # split_acc sep [] (drop (length sep) (c # cs))
      else split_acc sep (acc @ [c]) cs)"
  by pat_completeness auto
termination
  by (relation "measure (\<lambda>(sep, acc, s). length s)") (auto simp: neq_Nil_conv)

definition split_py :: "string \<Rightarrow> string \<Rightarrow> string list" where
  "split_py sep s = split_acc sep [] s"

text \<open>\<open>sep.join(xs)\<close>\<close>

fun join_py :: "string \<Rightarrow> string list \<Rightarrow> string" where
  "join_py sep [] = []"
| "join_py sep [x] = x"
| "join_py sep (x # y # ys) = x @ sep @ join_py sep (y # ys)"

text \<open>\<open>s.replace(old, new)\<close> for single characters\<close>

definition replace_char :: "char \<Rightarrow> char \<Rightarrow> string \<Rightarrow> string" where
  "replace_char old new s = map (\<lambda>c. if c = old then new else c) s"

text \<open>\<open>s.strip(cs)\<close>: drops the characters of \<open>cs\<close> from both ends\<close>

definition strip_chars :: "string \<Rightarrow> string \<Rightarrow> string" where
  "strip_chars cs s =
     rev (dropWhile (\<lambda>c. c \<in> set cs) (rev (dropWhile (\<lambda>c. c \<in> set cs) s)))"

section \<open>\<open>sanitize_filename\<close>\<close>

text \<open>The characters \<open><>:"/\|?*\<close> (the double quote is 0x22, the backslash 0x5C).\<close>

definition invalid_chars :: string where
  "invalid_chars =
     [CHR ''<'', CHR ''>'', CHR '':'', CHR 0x22, CHR ''/'', CHR 0x5C, CHR ''|'', CHR ''?'', CHR ''*'']"

text \<open>
  The source replaces each invalid character by an underscore (the \<open>for\<close> loop is the
  \<open>foldl\<close>), strips spaces and dots at both ends, and only then cuts to 100 characters.
\<close>

definition sanitize_filename :: "string \<Rightarrow> string" where
  "sanitize_filename filename =
    (let f1 = foldl (\<lambda>f char. replace_char char (CHR ''_'') f) filename invalid_chars;
         f2 = strip_chars '' .'' f1
     in if length f2 > 100 then take 100 f2 else f2)"

text \<open>The name after the replacement loop of \<open>sanitize_filename\<close>.\<close>

definition replaced :: "string \<Rightarrow> string" where
  "replaced s = foldl (\<lambda>f char. replace_char char (CHR ''_'') f) s invalid_chars"

text \<open>The name of 101 characters \<open>aaa...a b\<close>: 99 letters, a space, a letter.\<close>

definition long_name :: string where
  "long_name = replicate 99 (CHR ''a'') @ '' b''"

section \<open>Exceptions, the environment and the world\<close>

text \<open>
  The exceptions the program distinguishes. \<open>CalledProcessError\<close> is what
  \<open>subprocess.run(..., check=True)\<close> raises on a non-zero exit; \<open>Error\<close> is any other
  subclass of \<open>Exception\<close> (HTTP, authentication and quota errors of the two services,
  \<open>OSError\<close>, \<open>KeyError\<close>), with its message; \<open>KeyboardInterrupt\<close> is not a subclass
  of \<open>Exception\<close>, so \<open>except Exception\<close> does not catch it.
\<close>

datatype exn = CalledProcessError string | Error string | KeyboardInterrupt

fun is_Exception :: "exn \<Rightarrow> bool" where
  "is_Exception KeyboardInterrupt = False"
| "is_Exception (CalledProcessError m) = True"
| "is_Exception (Error m) = True"

fun str_exn :: "exn \<Rightarrow> string" where
  "str_exn (CalledProcessError m) = m"
| "str_exn (Error m) = m"
| "str_exn KeyboardInterrupt = []"

type_synonym path = string

text \<open>The objects of the catalog service, as far as the program reads them.\<close>

datatype artist = Artist (artist_name: string)

record track_obj =
  track_name :: string
  track_artists :: "artist list"

text \<open>An entry of a playlist page; \<open>item['track']\<close> is \<open>None\<close> for a removed track.\<close>

record playlist_item =
  item_track :: "track_obj option"

text \<open>A page of playlist entries with the cursor \<open>results['next']\<close>.\<close>

record paging =
  items :: "playlist_item list"
  next_url :: "string option"

record album_obj =
  album_name :: string
  album_total_tracks :: nat
  album_items :: "track_obj list"

record playlist_obj =
  playlist_name :: string
  playlist_total :: nat

text \<open>A hit of the video search: \<open>item['id']['videoId']\<close> and \<open>item['snippet']['title']\<close>.\<close>

record search_item =
  videoId :: string
  title :: string

text \<open>
  How a write of the CSV file ends: it completes; opening the file fails; or an error or
  an interrupt stops it after some of the lines have reached the file.
\<close>

datatype io_outcome = Completes | OpenFails exn | FailsAfter nat exn

text \<open>
  Everything outside the program is a parameter: the answers of the catalog client
  \<open>sp\<close>, of the video search, of the file system and of the download utility.
  \<open>None\<close> in an \<open>exn option\<close> means that the call returns normally.
\<close>

record env =
  sp_album :: "string \<Rightarrow> exn + album_obj"
  sp_playlist :: "string \<Rightarrow> exn + playlist_obj"
  sp_playlist_tracks :: "string \<Rightarrow> exn + paging"
  sp_next :: "paging \<Rightarrow> exn + paging"
  yt_build :: "exn option"
  yt_execute :: "string \<Rightarrow> exn + search_item list"
  os_makedirs :: "path \<Rightarrow> exn option"
  csv_io :: "path \<Rightarrow> io_outcome"
  chdir_err :: "path \<Rightarrow> exn option"
  sys_executable :: string
  subprocess_run :: "path \<Rightarrow> string list \<Rightarrow> exn option"
  os_listdir :: "path \<Rightarrow> exn + string list"

text \<open>
  What the program does to the outside: calls of the services and of the operating
  system, and the lines printed that report an error or the outcome of a stage
  (banners, progress lines and echoed tables are not recorded).
\<close>

datatype event =
    Print string
  | CallAlbum string
  | CallPlaylist string
  | CallPlaylistTracks string
  | CallNext paging
  | CallSearch string
  | Makedirs path
  | ToCsv path
  | Chdir path
  | Run "string list"
  | Listdir path

text \<open>
  The state of the process and of the disk: the working directory, the CSV files
  (as lines of cells) and the trace of events so far.
\<close>

record world =
  cwd :: path
  files :: "path \<rightharpoonup> string list list"
  trace :: "event list"

definition emit :: "event \<Rightarrow> world \<Rightarrow> world" where
  "emit e w = w\<lparr>trace := trace w @ [e]\<rparr>"

section \<open>Data frames\<close>

text \<open>
  A pandas frame: the column names and the rows; a cell is \<open>None\<close> where pandas has
  \<open>None\<close>/\<open>NaN\<close>.
\<close>

type_synonym cell = "string option"

record dataframe =
  df_columns :: "string list"
  df_rows :: "cell list list"

text \<open>
  \<open>pd.DataFrame(track_data)\<close> on a list of dictionaries with the keys \<open>'Track Name'\<close>
  and \<open>'Artist Name(s)'\<close> (a pair here). On the empty list pandas builds a frame with no
  rows and no columns.
\<close>

definition pd_DataFrame :: "(string \<times> string) list \<Rightarrow> dataframe" where
  "pd_DataFrame track_data =
     (if track_data = [] then \<lparr>df_columns = [], df_rows = []\<rparr>
      else \<lparr>df_columns = [''Track Name'', ''Artist Name(s)''],
            df_rows = map (\<lambda>(n, a). [Some n, Some a]) track_data\<rparr>)"

text \<open>\<open>row[name]\<close>: KeyError when the frame has no such column.\<close>

definition row_get :: "string list \<Rightarrow> cell list \<Rightarrow> string \<Rightarrow> exn + cell" where
  "row_get cols r name =
     (if name \<in> set cols
      then Inr (case map_of (zip cols r) name of Some c \<Rightarrow> c | None \<Rightarrow> None)
      else Inl (Error ''KeyError''))"

text \<open>\<open>df[df[name].notna()][name].tolist()\<close>\<close>

definition notna_values :: "dataframe \<Rightarrow> string \<Rightarrow> exn + string list" where
  "notna_values df name =
     (if name \<in> set (df_columns df)
      then Inr (concat (map (\<lambda>r. case row_get (df_columns df) r name of
                                     Inr (Some v) \<Rightarrow> [v] | _ \<Rightarrow> []) (df_rows df)))
      else Inl (Error ''KeyError''))"

text \<open>Python's \<open>str\<close> of a cell, as an f-string formats it.\<close>

fun py_str :: "cell \<Rightarrow> string" where
  "py_str None = ''None''"
| "py_str (Some s) = s"

text \<open>
  The text of a cell in the CSV file: \<open>to_csv\<close> writes a missing value as the empty
  string (\<open>na_rep=''\<close> is the default).
\<close>

fun cell_text :: "cell \<Rightarrow> string" where
  "cell_text None = []"
| "cell_text (Some s) = s"

text \<open>The lines \<open>to_csv(path, index=False)\<close> writes: the header, then one line per row.\<close>

definition csv_lines :: "dataframe \<Rightarrow> string list list" where
  "csv_lines df = df_columns df # map (map cell_text) (df_rows df)"

text \<open>
  \<open>df.to_csv(path, index=False)\<close> opens the target file for writing and writes the
  lines into it. The source uses no temporary file and no rename, so what a failed or
  interrupted write leaves at \<open>path\<close> is the part written so far.
\<close>

definition to_csv :: "env \<Rightarrow> dataframe \<Rightarrow> path \<Rightarrow> world \<Rightarrow> exn option \<times> world" where
  "to_csv E df p w =
     (let w1 = emit (ToCsv p) w in
      case csv_io E p of
        Completes \<Rightarrow> (None, w1\<lparr>files := (files w1)(p \<mapsto> csv_lines df)\<rparr>)
      | OpenFails e \<Rightarrow> (Some e, w1)
      | FailsAfter k e \<Rightarrow> (Some e, w1\<lparr>files := (files w1)(p \<mapsto> take k (csv_lines df))\<rparr>))"

section \<open>\<open>export_spotify_playlist\<close>\<close>

text \<open>
  The dictionary of a track, \<open>{'Track Name': ..., 'Artist Name(s)': ...}\<close>, as a pair.
\<close>

definition track_info :: "track_obj \<Rightarrow> string \<times> string" where
  "track_info t = (track_name t, join_py '', '' (map artist_name (track_artists t)))"

text \<open>The loop over the fetched entries: an entry without a track is skipped.\<close>

fun extract_tracks :: "playlist_item list \<Rightarrow> (string \<times> string) list" where
  "extract_tracks [] = []"
| "extract_tracks (i # rest) =
     (case item_track i of
        None \<Rightarrow> extract_tracks rest
      | Some t \<Rightarrow> track_info t # extract_tracks rest)"

text \<open>Truth value of the cursor: \<open>None\<close> and the empty string end the loop.\<close>

fun truthy :: "string option \<Rightarrow> bool" where
  "truthy None = False"
| "truthy (Some u) = (u \<noteq> [])"

text \<open>
  \<open>while results['next']: results = sp.next(results); tracks.extend(results['items'])\<close>.
  Nothing in the program bounds the number of pages, so the loop is a partial function:
  \<open>None\<close> is a run that never leaves the loop.
\<close>

partial_function (option) fetch_pages ::
  "env \<Rightarrow> paging \<Rightarrow> playlist_item list \<Rightarrow> world \<Rightarrow> ((exn + playlist_item list) \<times> world) option"
where
  "fetch_pages E results tracks w =
     (if truthy (next_url results)
      then (case sp_next E results of
              Inl e \<Rightarrow> Some (Inl e, emit (CallNext results) w)
            | Inr results' \<Rightarrow>
                fetch_pages E results' (tracks @ items results') (emit (CallNext results) w))
      else Some (Inr tracks, w))"

text \<open>The two \<open>except Exception as e: print(f"Error: {e}"); return None, None\<close> handlers.\<close>

definition export_failed ::
  "exn \<Rightarrow> world \<Rightarrow> (exn + dataframe option \<times> string option) \<times> world" where
  "export_failed e w =
     (if is_Exception e then (Inr (None, None), emit (Print (''Error: '' @ str_exn e)) w)
      else (Inl e, w))"

definition album_id_of :: "string \<Rightarrow> string" where
  "album_id_of playlist_url = split_py ''?'' (split_py ''album/'' playlist_url ! 1) ! 0"

definition playlist_id_of :: "string \<Rightarrow> string" where
  "playlist_id_of playlist_url = split_py ''?'' (split_py ''playlist/'' playlist_url ! 1) ! 0"

definition export_spotify_playlist ::
  "env \<Rightarrow> string \<Rightarrow> world \<Rightarrow> ((exn + dataframe option \<times> string option) \<times> world) option" where
  "export_spotify_playlist E playlist_url w =
     (if sub_in ''album/'' playlist_url then
        (let album_id = album_id_of playlist_url;
             w1 = emit (CallAlbum album_id) w
         in case sp_album E album_id of
              Inl e \<Rightarrow> Some (export_failed e w1)
            | Inr album \<Rightarrow>
                Some (Inr (Some (pd_DataFrame (map track_info (album_items album))),
                           Some (album_name album)), w1))
      else if sub_in ''playlist/'' playlist_url then
        (let playlist_id = playlist_id_of playlist_url;
             w1 = emit (CallPlaylist playlist_id) w
         in case sp_playlist E playlist_id of
              Inl e \<Rightarrow> Some (export_failed e w1)
            | Inr playlist \<Rightarrow>
                (let w2 = emit (CallPlaylistTracks playlist_id) w1
                 in case sp_playlist_tracks E playlist_id of
                      Inl e \<Rightarrow> Some (export_failed e w2)
                    | Inr results \<Rightarrow>
                        (case fetch_pages E results (items results) w2 of
                           None \<Rightarrow> None
                         | Some (Inl e, w3) \<Rightarrow> Some (export_failed e w3)
                         | Some (Inr tracks, w3) \<Rightarrow>
                             Some (Inr (Some (pd_DataFrame (extract_tracks tracks)),
                                        Some (playlist_name playlist)), w3))))
      else Some (Inr (None, None),
                 emit (Print ''Invalid URL format. Please provide a Spotify playlist or album URL.'') w))"

section \<open>\<open>get_youtube_link\<close>\<close>

definition search_failed ::
  "string \<Rightarrow> exn \<Rightarrow> world \<Rightarrow> (exn + string option \<times> string option) \<times> world" where
  "search_failed query e w =
     (if is_Exception e
      then (Inr (None, None),
            emit (Print (''Error searching for '' @ [CHR 0x27] @ query @ [CHR 0x27] @ '': '' @ str_exn e)) w)
      else (Inl e, w))"

definition search_query :: "string \<Rightarrow> string option \<Rightarrow> string" where
  "search_query song_name artist =
     (let query = song_name @ '' lyrics''
      in case artist of
           None \<Rightarrow> query
         | Some a \<Rightarrow> if a \<noteq> [] then query @ '' '' @ a else query)"

definition get_youtube_link ::
  "env \<Rightarrow> string \<Rightarrow> string option \<Rightarrow> world \<Rightarrow> (exn + string option \<times> string option) \<times> world" where
  "get_youtube_link E song_name artist w =
     (let query = search_query song_name artist
      in case yt_build E of
           Some e \<Rightarrow> search_failed query e w
         | None \<Rightarrow>
             (let w1 = emit (CallSearch query) w
              in case yt_execute E query of
                   Inl e \<Rightarrow> search_failed query e w1
                 | Inr response_items \<Rightarrow>
                     (case response_items of
                        [] \<Rightarrow> (Inr (None, None), w1)
                      | first # others \<Rightarrow>
                          (Inr (Some (''https://www.youtube.com/watch?v='' @ videoId first),
                                Some (title first)), w1))))"

section \<open>\<open>create_playlist_folder\<close>\<close>

definition create_playlist_folder ::
  "env \<Rightarrow> string \<Rightarrow> world \<Rightarrow> (exn + string option) \<times> world" where
  "create_playlist_folder E name w =
     (let folder_name = sanitize_filename name;
          w1 = emit (Makedirs folder_name) w
      in case os_makedirs E folder_name of
           None \<Rightarrow> (Inr (Some folder_name), emit (Print (''Created folder: '' @ folder_name)) w1)
         | Some e \<Rightarrow>
             (if is_Exception e
              then (Inr None, emit (Print (''Failed to create folder: '' @ str_exn e)) w1)
              else (Inl e, w1)))"

section \<open>\<open>download_songs\<close>\<close>

text \<open>\<open>os.path.join(a, p)\<close> (POSIX): an absolute \<open>p\<close> replaces \<open>a\<close>.\<close>

definition os_path_join :: "path \<Rightarrow> path \<Rightarrow> path" where
  "os_path_join a p =
     (if prefix ''/'' p then p
      else if a = [] \<or> last a = CHR ''/'' then a @ p
      else a @ ''/'' @ p)"

text \<open>
  \<open>os.chdir(p)\<close>: the new working directory is \<open>p\<close> taken relative to the current
  one; when the call fails the working directory stays. The path is joined, not
  normalised: \<open>.\<close>, \<open>..\<close>, a trailing \<open>/\<close> and symbolic links in \<open>p\<close> are
  kept as written, where the operating system would resolve them. An absolute \<open>p\<close>,
  such as the directory saved from \<open>os.getcwd()\<close>, is taken as it is.
\<close>

definition os_chdir :: "env \<Rightarrow> path \<Rightarrow> world \<Rightarrow> exn option \<times> world" where
  "os_chdir E p w =
     (let target = os_path_join (cwd w) p
      in case chdir_err E target of
           Some e \<Rightarrow> (Some e, w)
         | None \<Rightarrow> (None, emit (Chdir target) (w\<lparr>cwd := target\<rparr>)))"

text \<open>
  The \<open>except\<close> clauses of \<open>download_songs\<close>: a non-zero exit of the utility and an
  interrupt by the user each print their line and return \<open>False\<close>; any other exception
  leaves the function.
\<close>

fun download_except :: "exn \<Rightarrow> world \<Rightarrow> (exn + bool) \<times> world" where
  "download_except (CalledProcessError m) w =
     (Inr False, emit (Print (''Download failed with error: '' @ m)) w)"
| "download_except KeyboardInterrupt w =
     (Inr False, emit (Print ([CHR 0x0A] @ ''Download interrupted by user'')) w)"
| "download_except (Error m) w = (Inl (Error m), w)"

text \<open>The body of the \<open>try\<close> block together with its \<open>except\<close> clauses.\<close>

definition download_try :: "env \<Rightarrow> string list \<Rightarrow> world \<Rightarrow> (exn + bool) \<times> world" where
  "download_try E links w =
     (let cmd = [sys_executable E, ''-m'', ''yt_dlp'', ''-f'', ''bestaudio[ext=m4a]'',
                 ''--output'', ''%(title)s.%(ext)s''] @ links;
          w1 = emit (Run cmd) w
      in case subprocess_run E (cwd w) cmd of
           Some e \<Rightarrow> download_except e w1
         | None \<Rightarrow>
             (let w2 = emit (Listdir (cwd w)) (emit (Print ''Download completed successfully!'') w1)
              in case os_listdir E (cwd w) of
                   Inl e \<Rightarrow> download_except e w2
                 | Inr names \<Rightarrow> (Inr True, w2)))"

text \<open>
  \<open>download_songs\<close>: the guard, \<open>os.chdir(playlist_folder)\<close> before the \<open>try\<close>, the
  \<open>try\<close> block, and \<open>os.chdir(original_dir)\<close> in the \<open>finally\<close> clause. An exception
  raised in the \<open>finally\<close> clause replaces the outcome of the block.
\<close>

definition download_songs ::
  "env \<Rightarrow> string list \<Rightarrow> string \<Rightarrow> world \<Rightarrow> (exn + bool) \<times> world" where
  "download_songs E links playlist_folder w =
     (if links = [] \<or> playlist_folder = []
      then (Inr False, emit (Print ''No YouTube links or playlist folder specified'') w)
      else
        (let original_dir = cwd w
         in case os_chdir E playlist_folder w of
              (Some e, w1) \<Rightarrow> (Inl e, w1)
            | (None, w1) \<Rightarrow>
                (case download_try E links w1 of
                   (r, w2) \<Rightarrow>
                     (case os_chdir E original_dir w2 of
                        (Some e, w3) \<Rightarrow> (Inl e, w3)
                      | (None, w3) \<Rightarrow> (r, w3)))))"

section \<open>\<open>process_playlist\<close>\<close>

text \<open>
  The function applied to each row, in row order:
  \<open>lambda row: pd.Series(get_youtube_link(row['Track Name'], row['Artist Name(s)']))\<close>.
  An exception that leaves \<open>get_youtube_link\<close> ends the loop.
\<close>

fun apply_rows ::
  "env \<Rightarrow> string list \<Rightarrow> cell list list \<Rightarrow> world \<Rightarrow> (exn + (cell \<times> cell) list) \<times> world" where
  "apply_rows E cols [] w = (Inr [], w)"
| "apply_rows E cols (r # rs) w =
     (case row_get cols r ''Track Name'' of
        Inl e \<Rightarrow> (Inl e, w)
      | Inr song \<Rightarrow>
          (case row_get cols r ''Artist Name(s)'' of
             Inl e \<Rightarrow> (Inl e, w)
           | Inr artist \<Rightarrow>
               (case get_youtube_link E (py_str song) artist w of
                  (Inl e, w1) \<Rightarrow> (Inl e, w1)
                | (Inr m, w1) \<Rightarrow>
                    (case apply_rows E cols rs w1 of
                       (Inl e, w2) \<Rightarrow> (Inl e, w2)
                     | (Inr ms, w2) \<Rightarrow> (Inr (m # ms), w2)))))"

text \<open>
  \<open>df[['YouTube Link', 'YouTube Video Title']] = df.progress_apply(..., axis=1)\<close>.
  tqdm's \<open>progress_apply\<close> first computes the number of steps as
  \<open>df.size // df.shape[axis]\<close>; on a frame without columns \<open>df.shape[1]\<close> is 0 and the
  division raises. Otherwise the two new columns are appended to every row.
\<close>

definition add_youtube_columns ::
  "env \<Rightarrow> dataframe \<Rightarrow> world \<Rightarrow> (exn + dataframe) \<times> world" where
  "add_youtube_columns E df w =
     (if length (df_columns df) = 0
      then (Inl (Error ''integer division or modulo by zero''), w)
      else (case apply_rows E (df_columns df) (df_rows df) w of
              (Inl e, w1) \<Rightarrow> (Inl e, w1)
            | (Inr ms, w1) \<Rightarrow>
                (Inr \<lparr>df_columns = df_columns df @ [''YouTube Link'', ''YouTube Video Title''],
                      df_rows = map (\<lambda>(r, (l, t)). r @ [l, t]) (zip (df_rows df) ms)\<rparr>, w1)))"

definition no_links_message :: string where
  "no_links_message =
     [CHR 0x0A] @ ''No YouTube links found. Please check your API key and try again.''"

text \<open>
  The part of \<open>process_playlist\<close> after the folder exists: resolve the matches, write the
  CSV file into the folder, then download the resolved links or report that there are
  none. An exception of \<open>to_csv\<close> is not caught.
\<close>

definition process_tracks ::
  "env \<Rightarrow> dataframe \<Rightarrow> string \<Rightarrow> world \<Rightarrow> (exn + bool) \<times> world" where
  "process_tracks E df playlist_folder w =
     (case add_youtube_columns E df w of
        (Inl e, w1) \<Rightarrow> (Inl e, w1)
      | (Inr df', w1) \<Rightarrow>
          (let final_output = os_path_join playlist_folder ''spotify_playlist_with_youtube.csv''
           in case to_csv E df' final_output w1 of
                (Some e, w2) \<Rightarrow> (Inl e, w2)
              | (None, w2) \<Rightarrow>
                  (case notna_values df' ''YouTube Link'' of
                     Inl e \<Rightarrow> (Inl e, w2)
                   | Inr links \<Rightarrow>
                       (if links \<noteq> [] then download_songs E links playlist_folder w2
                        else (Inr False, emit (Print no_links_message) w2)))))"

text \<open>
  \<open>process_playlist\<close>: export the collection, create the folder, then
  \<open>process_tracks\<close>. \<open>if not playlist_folder\<close> rejects \<open>None\<close> and the empty name.
\<close>

definition process_playlist ::
  "env \<Rightarrow> string \<Rightarrow> world \<Rightarrow> ((exn + bool) \<times> world) option" where
  "process_playlist E playlist_url w =
     (case export_spotify_playlist E playlist_url w of
        None \<Rightarrow> None
      | Some (Inl e, w1) \<Rightarrow> Some (Inl e, w1)
      | Some (Inr (Some df, Some name), w1) \<Rightarrow>
          (case create_playlist_folder E name w1 of
             (Inl e, w2) \<Rightarrow> Some (Inl e, w2)
           | (Inr (Some playlist_folder), w2) \<Rightarrow>
               (if playlist_folder = []
                then Some (Inr False, emit (Print ''Failed to create playlist folder'') w2)
                else Some (process_tracks E df playlist_folder w2))
           | (Inr None, w2) \<Rightarrow>
               Some (Inr False, emit (Print ''Failed to create playlist folder'') w2))
      | Some (Inr other, w1) \<Rightarrow>
          Some (Inr False,
                emit (Print ''Failed to export playlist. Please check your URL and try again.'') w1))"

text \<open>The events of the download stage.\<close>

fun download_event :: "event \<Rightarrow> bool" where
  "download_event (Chdir d) = True"
| "download_event (Run cmd) = True"
| "download_event (Listdir d) = True"
| "download_event other = False"

text \<open>The calls of the playlist branch of \<open>export_spotify_playlist\<close>.\<close>

fun playlist_event :: "event \<Rightarrow> bool" where
  "playlist_event (CallPlaylist i) = True"
| "playlist_event (CallPlaylistTracks i) = True"
| "playlist_event (CallNext p) = True"
| "playlist_event other = False"

section \<open>A stub environment\<close>

text \<open>
  A small environment for concrete runs: the catalog knows no collection, the video
  search finds nothing, and the file system and the download utility succeed.
\<close>

definition stub_env :: env where
  "stub_env =
     \<lparr>sp_album = (\<lambda>i. Inl (Error ''not found'')),
      sp_playlist = (\<lambda>i. Inl (Error ''not found'')),
      sp_playlist_tracks = (\<lambda>i. Inl (Error ''not found'')),
      sp_next = (\<lambda>p. Inl (Error ''not found'')),
      yt_build = None,
      yt_execute = (\<lambda>q. Inr []),
      os_makedirs = (\<lambda>p. None),
      csv_io = (\<lambda>p. Completes),
      chdir_err = (\<lambda>p. None),
      sys_executable = ''python3'',
      subprocess_run = (\<lambda>d cmd. None),
      os_listdir = (\<lambda>d. Inr [])\<rparr>"

definition start_world :: world where
  "start_world = \<lparr>cwd = ''/home/user'', files = Map.empty, trace = []\<rparr>"

section \<open>Reading the service's pages and the URL, in the specification's words\<close>

text \<open>
  The text after the first occurrence of \<open>sep\<close>, and the text before the first
  occurrence of \<open>sep\<close> (all of it when \<open>sep\<close> does not occur).
\<close>

fun after_first :: "string \<Rightarrow> string \<Rightarrow> string" where
  "after_first sep [] = []"
| "after_first sep (c # cs) =
     (if prefix sep (c # cs) then drop (length sep) (c # cs) else after_first sep cs)"

fun before_first :: "string \<Rightarrow> string \<Rightarrow> string" where
  "before_first sep [] = []"
| "before_first sep (c # cs) = (if prefix sep (c # cs) then [] else c # before_first sep cs)"

text \<open>
  \<open>serves E p ps\<close>: starting from the page \<open>p\<close>, the service hands out exactly the
  pages \<open>ps\<close>, one per cursor, and the last page has no cursor.
\<close>

fun serves :: "env \<Rightarrow> paging \<Rightarrow> paging list \<Rightarrow> bool" where
  "serves E p [] = (\<not> truthy (next_url p))"
| "serves E p (q # qs) = (truthy (next_url p) \<and> sp_next E p = Inr q \<and> serves E q qs)"

text \<open>
  A playlist of two pages for concrete runs: the first page holds a track and a removed
  entry, the second page one track.
\<close>

definition track_A :: track_obj where
  "track_A = \<lparr>track_name = ''Alpha'', track_artists = [Artist ''Ann'', Artist ''Bob'']\<rparr>"

definition track_C :: track_obj where
  "track_C = \<lparr>track_name = ''Gamma'', track_artists = [Artist ''Cy'']\<rparr>"

definition page_two :: paging where
  "page_two = \<lparr>items = [\<lparr>item_track = Some track_C\<rparr>], next_url = None\<rparr>"

definition page_one :: paging where
  "page_one = \<lparr>items = [\<lparr>item_track = Some track_A\<rparr>, \<lparr>item_track = None\<rparr>],
                next_url = Some ''https://api.spotify.com/v1/playlists/37i9/tracks?offset=2''\<rparr>"

definition playlist_env :: env where
  "playlist_env = stub_env
     \<lparr>sp_playlist := (\<lambda>i. Inr \<lparr>playlist_name = ''Road Trip'', playlist_total = 3\<rparr>),
      sp_playlist_tracks := (\<lambda>i. Inr page_one),
      sp_next := (\<lambda>p. if next_url p = next_url page_one then Inr page_two
                        else Inl (Error ''not found''))\<rparr>"

definition playlist_url :: string where
  "playlist_url = ''https://open.spotify.com/playlist/37i9?si=abc''"

text \<open>
  Two playlists without tracks: one whose only entry is a removed track, and one without
  entries.
\<close>

definition removed_page :: paging where
  "removed_page = \<lparr>items = [\<lparr>item_track = None\<rparr>], next_url = None\<rparr>"

definition removed_env :: env where
  "removed_env = stub_env
     \<lparr>sp_playlist := (\<lambda>i. Inr \<lparr>playlist_name = ''Road Trip'', playlist_total = 1\<rparr>),
      sp_playlist_tracks := (\<lambda>i. Inr removed_page)\<rparr>"

definition empty_page :: paging where
  "empty_page = \<lparr>items = [], next_url = None\<rparr>"

definition empty_env :: env where
  "empty_env = stub_env
     \<lparr>sp_playlist := (\<lambda>i. Inr \<lparr>playlist_name = ''Road Trip'', playlist_total = 0\<rparr>),
      sp_playlist_tracks := (\<lambda>i. Inr empty_page)\<rparr>"

text \<open>A URL with the album marker twice, and the playlist marker after the \<open>?\<close>.\<close>

definition both_markers_url :: string where
  "both_markers_url = ''https://open.spotify.com/album/AAA/album/BBB?from=playlist/7''"

section \<open>Frames and environments for concrete runs\<close>

text \<open>
  \<open>undisturbed w w'\<close>: from \<open>w\<close> to \<open>w'\<close> the working directory has not changed and
  no event of the download stage has happened.
\<close>

definition undisturbed :: "world \<Rightarrow> world \<Rightarrow> bool" where
  "undisturbed w w' =
     (cwd w' = cwd w \<and> filter download_event (trace w') = filter download_event (trace w))"

text \<open>
  The rows of the two-page playlist; an environment in which the write of the CSV file
  is interrupted after its first line; one in which the file cannot be opened; an
  environment in which the search finds a video
  for the first track only; and the frames with the two YouTube columns that result.
\<close>

definition demo_tracks :: "(string \<times> string) list" where
  "demo_tracks = [(''Alpha'', ''Ann, Bob''), (''Gamma'', ''Cy'')]"

definition interrupted_env :: env where
  "interrupted_env = stub_env\<lparr>csv_io := (\<lambda>p. FailsAfter 1 KeyboardInterrupt)\<rparr>"

definition denied_env :: env where
  "denied_env = stub_env\<lparr>csv_io := (\<lambda>p. OpenFails (Error ''Permission denied''))\<rparr>"

definition csv_header :: "string list" where
  "csv_header = [''Track Name'', ''Artist Name(s)'', ''YouTube Link'', ''YouTube Video Title'']"

definition demo_result :: dataframe where
  "demo_result = \<lparr>df_columns = csv_header,
                   df_rows = [[Some ''Alpha'', Some ''Ann, Bob'', None, None],
                              [Some ''Gamma'', Some ''Cy'', None, None]]\<rparr>"

definition search_env :: env where
  "search_env = stub_env
     \<lparr>yt_execute := (\<lambda>q. if q = ''Alpha lyrics Ann, Bob''
                          then Inr [\<lparr>videoId = ''abc'', title = ''Alpha (Lyrics)''\<rparr>]
                          else Inr [])\<rparr>"

definition found_result :: dataframe where
  "found_result = \<lparr>df_columns = csv_header,
                    df_rows = [[Some ''Alpha'', Some ''Ann, Bob'',
                                Some ''https://www.youtube.com/watch?v=abc'', Some ''Alpha (Lyrics)''],
                               [Some ''Gamma'', Some ''Cy'', None, None]]\<rparr>"

section \<open>Properties of \<open>sanitize_filename\<close>\<close>

text \<open>
  What holds of every output: none of the nine characters is left
  (\<open>sanitize_filename_no_invalid\<close>), the length is at most 100
  (\<open>sanitize_filename_length\<close>), and the first character is neither a space nor a dot
  (\<open>sanitize_filename_no_leading\<close>). When the stripped name has at most 100
  characters, nothing is cut and a second application changes nothing
  (\<open>sanitize_idem_short\<close>).
\<close>

lemma set_strip_chars: "set (strip_chars cs s) \<subseteq> set s"
proof
  fix x assume "x \<in> set (strip_chars cs s)"
  then have "x \<in> set (rev (dropWhile (\<lambda>c. c \<in> set cs) s))"
    unfolding strip_chars_def by (auto dest: set_dropWhileD)
  then show "x \<in> set s" by (auto dest: set_dropWhileD)
qed

lemma set_replace_char: "set (replace_char old new s) \<subseteq> (set s - {old}) \<union> {new}"
  by (auto simp: replace_char_def)

lemma set_foldl_replace:
  "set (foldl (\<lambda>f char. replace_char char new f) s cs) \<subseteq> set s \<union> {new}"
proof (induction cs arbitrary: s)
  case Nil
  then show ?case by auto
next
  case (Cons c cs)
  show ?case using Cons.IH[of "replace_char c new s"] set_replace_char[of c new s] by auto
qed

lemma foldl_replace_disjoint:
  "new \<notin> set cs \<Longrightarrow> set (foldl (\<lambda>f char. replace_char char new f) s cs) \<inter> set cs = {}"
proof (induction cs arbitrary: s)
  case Nil
  then show ?case by simp
next
  case (Cons c cs)
  have 1: "set (foldl (\<lambda>f char. replace_char char new f) (replace_char c new s) cs) \<inter> set cs = {}"
    using Cons by simp
  have 2: "c \<notin> set (foldl (\<lambda>f char. replace_char char new f) (replace_char c new s) cs)"
    using set_foldl_replace[of new "replace_char c new s" cs] set_replace_char[of c new s] Cons.prems
    by auto
  show ?case using 1 2 by simp
qed

lemma replaced_no_invalid:
  "set (foldl (\<lambda>f char. replace_char char (CHR ''_'') f) s invalid_chars) \<inter> set invalid_chars = {}"
  by (rule foldl_replace_disjoint) (simp add: invalid_chars_def)

lemma sanitize_filename_no_invalid: "set (sanitize_filename s) \<inter> set invalid_chars = {}"
proof -
  let ?f1 = "foldl (\<lambda>f char. replace_char char (CHR ''_'') f) s invalid_chars"
  have "set (sanitize_filename s) \<subseteq> set ?f1"
    using set_strip_chars[of "'' .''" ?f1]
    by (auto simp: sanitize_filename_def Let_def dest: in_set_takeD)
  then show ?thesis using replaced_no_invalid[of s] by blast
qed

lemma sanitize_filename_length: "length (sanitize_filename s) \<le> 100"
  by (simp add: sanitize_filename_def Let_def)

lemma strip_chars_hd: "strip_chars cs s \<noteq> [] \<Longrightarrow> hd (strip_chars cs s) \<notin> set cs"
proof -
  assume ne: "strip_chars cs s \<noteq> []"
  let ?d = "dropWhile (\<lambda>c. c \<in> set cs) s"
  have dne: "?d \<noteq> []" using ne by (cases "?d = []") (simp_all add: strip_chars_def)
  then have h: "hd ?d \<notin> set cs" using hd_dropWhile[of "\<lambda>c. c \<in> set cs" s] by simp
  obtain x xs where d: "?d = x # xs" using dne by (cases ?d) auto
  then have x: "x \<notin> set cs" using h by simp
  have "dropWhile (\<lambda>c. c \<in> set cs) (rev xs @ [x]) = dropWhile (\<lambda>c. c \<in> set cs) (rev xs) @ [x]"
    using x by (simp add: dropWhile_append3)
  then have "strip_chars cs s = x # rev (dropWhile (\<lambda>c. c \<in> set cs) (rev xs))"
    using d by (simp add: strip_chars_def)
  then show ?thesis using x by simp
qed

lemma strip_chars_last: "strip_chars cs s \<noteq> [] \<Longrightarrow> last (strip_chars cs s) \<notin> set cs"
proof -
  assume ne: "strip_chars cs s \<noteq> []"
  let ?r = "dropWhile (\<lambda>c. c \<in> set cs) (rev (dropWhile (\<lambda>c. c \<in> set cs) s))"
  have "?r \<noteq> []" using ne by (simp add: strip_chars_def)
  then have "hd ?r \<notin> set cs" using hd_dropWhile[of "\<lambda>c. c \<in> set cs"] by blast
  then show ?thesis using \<open>?r \<noteq> []\<close> by (simp add: strip_chars_def last_rev)
qed

lemma sanitize_filename_no_leading:
  "sanitize_filename s \<noteq> [] \<Longrightarrow> hd (sanitize_filename s) \<notin> {CHR '' '', CHR ''.''}"
  using strip_chars_hd[of "'' .''"]
  by (auto simp: sanitize_filename_def Let_def split: if_splits)

lemma strip_chars_id:
  "s \<noteq> [] \<Longrightarrow> hd s \<notin> set cs \<Longrightarrow> last s \<notin> set cs \<Longrightarrow> strip_chars cs s = s"
proof -
  assume a: "s \<noteq> []" "hd s \<notin> set cs" "last s \<notin> set cs"
  then have 1: "dropWhile (\<lambda>c. c \<in> set cs) s = s" by (cases s) auto
  have "rev s \<noteq> []" "hd (rev s) \<notin> set cs" using a by (auto simp: hd_rev)
  then have 2: "dropWhile (\<lambda>c. c \<in> set cs) (rev s) = rev s" by (cases "rev s") auto
  show ?thesis by (simp add: strip_chars_def 1 2)
qed

lemma replace_absent: "old \<notin> set s \<Longrightarrow> replace_char old new s = s"
  by (induction s) (auto simp: replace_char_def)

lemma foldl_replace_absent:
  "set s \<inter> set cs = {} \<Longrightarrow> foldl (\<lambda>f char. replace_char char new f) s cs = s"
  by (induction cs arbitrary: s) (auto simp: replace_absent)

lemma strip_chars_Nil: "strip_chars cs [] = []"
  by (simp add: strip_chars_def)

lemma strip_chars_idem: "strip_chars cs (strip_chars cs s) = strip_chars cs s"
proof (cases "strip_chars cs s = []")
  case True
  show ?thesis unfolding True by (rule strip_chars_Nil)
next
  case False
  show ?thesis
    by (rule strip_chars_id[OF False strip_chars_hd[OF False] strip_chars_last[OF False]])
qed

lemma sanitize_filename_alt:
  "sanitize_filename s = (if length (strip_chars '' .'' (replaced s)) > 100
      then take 100 (strip_chars '' .'' (replaced s)) else strip_chars '' .'' (replaced s))"
  unfolding sanitize_filename_def replaced_def Let_def by (rule refl)

lemma replaced_strip_fixed: "replaced (strip_chars cs (replaced s)) = strip_chars cs (replaced s)"
proof -
  have "set (strip_chars cs (replaced s)) \<inter> set invalid_chars = {}"
    using set_strip_chars[of cs "replaced s"] replaced_no_invalid[of s]
    unfolding replaced_def by blast
  then show ?thesis unfolding replaced_def by (rule foldl_replace_absent)
qed

lemma sanitize_idem_short:
  assumes "length (strip_chars '' .'' (replaced s)) \<le> 100"
  shows "sanitize_filename (sanitize_filename s) = sanitize_filename s"
proof -
  have r: "sanitize_filename s = strip_chars '' .'' (replaced s)"
    using assms by (simp only: sanitize_filename_alt) simp
  show ?thesis
    unfolding r
    by (simp only: sanitize_filename_alt[of "strip_chars '' .'' (replaced s)"]
        replaced_strip_fixed strip_chars_idem) (use assms in simp)
qed

text \<open>The example of the specification: the invalid characters become underscores.\<close>

lemma sanitize_filename_example:
  "sanitize_filename ''My: Playlist / 2024'' = ''My_ Playlist _ 2024''"
  by code_simp

text \<open>
  C5: every output of \<open>sanitize_filename\<close> is free of the invalid characters, has no
  leading or trailing dot or space, and has at most 100 characters. The code cuts to 100
  characters after stripping, so the cut can end on a space: on the 101-character name
  \<open>long_name\<close> the output has 100 characters and its last character is a space.
\<close>

theorem sanitize_filename_trailing_space:
  "length (sanitize_filename long_name) = 100 \<and> last (sanitize_filename long_name) = CHR '' ''"
  unfolding long_name_def by code_simp

text \<open>
  C4: \<open>sanitize_filename\<close> is idempotent. On \<open>long_name\<close> the second application strips
  the space that the cut of the first one left at the end, so the two results differ.
\<close>

theorem sanitize_filename_not_idempotent:
  "sanitize_filename (sanitize_filename long_name) \<noteq> sanitize_filename long_name"
  unfolding long_name_def by code_simp

section \<open>Properties of \<open>get_youtube_link\<close>\<close>



section \<open>Properties of \<open>download_songs\<close>\<close>

lemma os_path_join_absolute: "prefix ''/'' p \<Longrightarrow> os_path_join a p = p"
  by (simp add: os_path_join_def)

lemma os_chdir_back:
  "prefix ''/'' d \<Longrightarrow> chdir_err E d = None \<Longrightarrow> cwd (snd (os_chdir E d w)) = d"
  by (simp add: os_chdir_def Let_def os_path_join_absolute emit_def)

lemma os_chdir_fails_cwd: "fst (os_chdir E p w) = Some e \<Longrightarrow> snd (os_chdir E p w) = w"
  by (simp add: os_chdir_def Let_def split: option.splits)

text \<open>
  C7: the working directory after \<open>download_songs\<close> is the one before the call,
  whatever the links, the folder and the outcome of the utility are (success, non-zero
  exit, interrupt, any other exception, a folder that cannot be entered). The working
  directory is the absolute path \<open>os.getcwd()\<close> returns, and it can still be entered
  when the \<open>finally\<close> clause runs.
\<close>

theorem download_songs_restores_cwd:
  assumes "prefix ''/'' (cwd w)" and "chdir_err E (cwd w) = None"
  shows "cwd (snd (download_songs E links playlist_folder w)) = cwd w"
proof (cases "links = [] \<or> playlist_folder = []")
  case True
  then show ?thesis by (auto simp add: download_songs_def emit_def)
next
  case False
  obtain r1 w1 where c1: "os_chdir E playlist_folder w = (r1, w1)" by (cases "os_chdir E playlist_folder w")
  show ?thesis
  proof (cases r1)
    case (Some e)
    then have "w1 = w" using os_chdir_fails_cwd[of E playlist_folder w e] c1 by simp
    then show ?thesis using False c1 Some by (simp add: download_songs_def)
  next
    case None
    obtain r w2 where c2: "download_try E links w1 = (r, w2)" by (cases "download_try E links w1")
    have "cwd (snd (os_chdir E (cwd w) w2)) = cwd w"
      by (rule os_chdir_back[OF assms])
    then show ?thesis using False c1 None c2
      by (auto simp add: download_songs_def split: prod.split option.split)
  qed
qed

theorem download_songs_restores_cwd_witness:
  "prefix ''/'' (cwd start_world)
   \<and> chdir_err stub_env (cwd start_world) = None
   \<and> fst (download_songs stub_env [''u''] ''Mix'' start_world) = Inr True
   \<and> cwd (snd (download_songs stub_env [''u''] ''Mix'' start_world)) = cwd start_world
   \<and> fst (download_songs (stub_env\<lparr>subprocess_run := (\<lambda>d cmd. Some (CalledProcessError ''exit status 1''))\<rparr>)
            [''u''] ''Mix'' start_world) = Inr False
   \<and> cwd (snd (download_songs (stub_env\<lparr>subprocess_run := (\<lambda>d cmd. Some (CalledProcessError ''exit status 1''))\<rparr>)
            [''u''] ''Mix'' start_world)) = cwd start_world
   \<and> fst (download_songs (stub_env\<lparr>subprocess_run := (\<lambda>d cmd. Some KeyboardInterrupt)\<rparr>)
            [''u''] ''Mix'' start_world) = Inr False
   \<and> cwd (snd (download_songs (stub_env\<lparr>subprocess_run := (\<lambda>d cmd. Some KeyboardInterrupt)\<rparr>)
            [''u''] ''Mix'' start_world)) = cwd start_world
   \<and> Chdir ''/home/user/Mix'' \<in> set (trace (snd (download_songs stub_env [''u''] ''Mix'' start_world)))"
  using download_songs_restores_cwd[of start_world stub_env "[''u'']" "''Mix''"]
    download_songs_restores_cwd[of start_world
      "stub_env\<lparr>subprocess_run := (\<lambda>d cmd. Some (CalledProcessError ''exit status 1''))\<rparr>" "[''u'']" "''Mix''"]
    download_songs_restores_cwd[of start_world
      "stub_env\<lparr>subprocess_run := (\<lambda>d cmd. Some KeyboardInterrupt)\<rparr>" "[''u'']" "''Mix''"]
  by (simp add: stub_env_def start_world_def download_songs_def download_try_def os_chdir_def
      os_path_join_def emit_def Let_def)

text \<open>
  C8 as stated: on an empty list of links \<open>download_songs\<close> returns at once with an
  outcome that is not an error. The function returns \<open>False\<close>, its failure value.
\<close>

theorem download_songs_empty_not_success:
  "fst (download_songs stub_env [] ''Mix'' start_world) = Inr False
   \<and> fst (download_songs stub_env [] ''Mix'' start_world) \<noteq> Inr True"
  by (simp add: download_songs_def)

text \<open>
  C8 as amended: on an empty list of links \<open>download_songs\<close> returns at once, without
  changing the directory and without running the utility; it prints its diagnostic
  line and returns \<open>False\<close>.
\<close>

theorem download_songs_empty_links:
  "download_songs E [] playlist_folder w =
     (Inr False, emit (Print ''No YouTube links or playlist folder specified'') w)"
  by (simp add: download_songs_def)

section \<open>Properties of \<open>export_spotify_playlist\<close>\<close>

text \<open>
  \<open>split\<close> always returns a piece, and at least two when the separator occurs, so the
  indices \<open>[1]\<close> and \<open>[0]\<close> of the source never raise IndexError.
\<close>

lemma split_acc_not_Nil: "split_acc sep acc s \<noteq> []"
  by (induction sep acc s rule: split_acc.induct) auto

lemma split_acc_hd: "sep \<noteq> [] \<Longrightarrow> hd (split_acc sep acc s) = acc @ before_first sep s"
  by (induction sep acc s rule: split_acc.induct) auto

lemma split_acc_length: "sep \<noteq> [] \<Longrightarrow> sub_in sep s \<Longrightarrow> 1 < length (split_acc sep acc s)"
proof (induction sep acc s rule: split_acc.induct)
  case (1 sep acc)
  then show ?case by simp
next
  case (2 sep acc c cs)
  show ?case
  proof (cases "prefix sep (c # cs)")
    case True
    then show ?thesis using 2(3) split_acc_not_Nil[of sep "[]" "drop (length sep) (c # cs)"]
      by (cases "split_acc sep [] (drop (length sep) (c # cs))") auto
  next
    case False
    then show ?thesis using 2 by auto
  qed
qed

lemma split_acc_second:
  "sep \<noteq> [] \<Longrightarrow> sub_in sep s \<Longrightarrow> split_acc sep acc s ! 1 = before_first sep (after_first sep s)"
proof (induction sep acc s rule: split_acc.induct)
  case (1 sep acc)
  then show ?case by simp
next
  case (2 sep acc c cs)
  show ?case
  proof (cases "prefix sep (c # cs)")
    case True
    have "split_acc sep [] (drop (length sep) (c # cs)) ! 0
            = hd (split_acc sep [] (drop (length sep) (c # cs)))"
      using split_acc_not_Nil by (simp add: hd_conv_nth)
    then show ?thesis using True 2(3) split_acc_hd[of sep "[]" "drop (length sep) (c # cs)"]
      by simp
  next
    case False
    then show ?thesis using 2 by auto
  qed
qed

lemma split_py_first: "sep \<noteq> [] \<Longrightarrow> split_py sep s ! 0 = before_first sep s"
  using split_acc_hd[of sep "[]" s] split_acc_not_Nil[of sep "[]" s]
  by (simp add: split_py_def hd_conv_nth)

lemma split_py_second:
  "sep \<noteq> [] \<Longrightarrow> sub_in sep s \<Longrightarrow> split_py sep s ! 1 = before_first sep (after_first sep s)"
  unfolding split_py_def by (rule split_acc_second)

lemma album_id_of_eq:
  assumes "sub_in ''album/'' url"
  shows "album_id_of url = before_first ''?'' (before_first ''album/'' (after_first ''album/'' url))"
proof -
  have "split_py ''album/'' url ! 1 = before_first ''album/'' (after_first ''album/'' url)"
    by (rule split_py_second[OF _ assms]) simp
  then show ?thesis unfolding album_id_of_def by (simp only: split_py_first[of "''?''", simplified])
qed

lemma playlist_id_of_eq:
  assumes "sub_in ''playlist/'' url"
  shows "playlist_id_of url
           = before_first ''?'' (before_first ''playlist/'' (after_first ''playlist/'' url))"
proof -
  have "split_py ''playlist/'' url ! 1 = before_first ''playlist/'' (after_first ''playlist/'' url)"
    by (rule split_py_second[OF _ assms]) simp
  then show ?thesis unfolding playlist_id_of_def by (simp only: split_py_first[of "''?''", simplified])
qed

lemma fetch_pages_serves:
  "serves E p ps \<Longrightarrow>
   fetch_pages E p tracks w
     = Some (Inr (tracks @ concat (map items ps)),
             w\<lparr>trace := trace w @ map CallNext (butlast (p # ps))\<rparr>)"
proof (induction ps arbitrary: p tracks w)
  case Nil
  then show ?case by (subst fetch_pages.simps) simp
next
  case (Cons q qs)
  have 1: "truthy (next_url p)" and 2: "sp_next E p = Inr q" and 3: "serves E q qs"
    using Cons.prems by simp_all
  have "fetch_pages E p tracks w = fetch_pages E q (tracks @ items q) (emit (CallNext p) w)"
    by (subst fetch_pages.simps) (simp add: 1 2)
  also have "\<dots> = Some (Inr ((tracks @ items q) @ concat (map items qs)),
                  (emit (CallNext p) w)\<lparr>trace := trace (emit (CallNext p) w) @ map CallNext (butlast (q # qs))\<rparr>)"
    by (rule Cons.IH[OF 3])
  finally show ?case by (simp add: emit_def)
qed

lemma extract_tracks_map_filter:
  "extract_tracks xs = map track_info (List.map_filter item_track xs)"
  by (induction xs) (auto simp: List.map_filter_simps split: option.split)

lemma length_extract_tracks:
  "length (extract_tracks xs) = length (filter (\<lambda>i. item_track i \<noteq> None) xs)"
  by (induction xs) (auto split: option.split)

lemma df_rows_pd_DataFrame:
  "df_rows (pd_DataFrame td) = map (\<lambda>(n, a). [Some n, Some a]) td"
  by (simp add: pd_DataFrame_def)

lemma export_playlist_result:
  assumes "sub_in ''playlist/'' url" and "\<not> sub_in ''album/'' url"
    and "sp_playlist E (playlist_id_of url) = Inr playlist"
    and "sp_playlist_tracks E (playlist_id_of url) = Inr first_page"
    and "serves E first_page more_pages"
  shows "export_spotify_playlist E url w
           = Some (Inr (Some (pd_DataFrame (extract_tracks (concat (map items (first_page # more_pages))))),
                        Some (playlist_name playlist)),
                   w\<lparr>trace := trace w @ [CallPlaylist (playlist_id_of url),
                                          CallPlaylistTracks (playlist_id_of url)]
                                       @ map CallNext (butlast (first_page # more_pages))\<rparr>)"
proof -
  let ?all = "concat (map items (first_page # more_pages))"
  let ?w2 = "emit (CallPlaylistTracks (playlist_id_of url)) (emit (CallPlaylist (playlist_id_of url)) w)"
  have f: "fetch_pages E first_page (items first_page) ?w2
             = Some (Inr ?all, ?w2\<lparr>trace := trace ?w2 @ map CallNext (butlast (first_page # more_pages))\<rparr>)"
    using fetch_pages_serves[OF assms(5), of "items first_page" ?w2] by simp
  have e: "export_spotify_playlist E url w
           = Some (Inr (Some (pd_DataFrame (extract_tracks ?all)), Some (playlist_name playlist)),
                   ?w2\<lparr>trace := trace ?w2 @ map CallNext (butlast (first_page # more_pages))\<rparr>)"
    unfolding export_spotify_playlist_def Let_def
    by (simp only: assms(1) assms(2) if_True if_False assms(3) assms(4) sum.case f option.case prod.case)
  have w: "?w2\<lparr>trace := trace ?w2 @ map CallNext (butlast (first_page # more_pages))\<rparr>
            = w\<lparr>trace := trace w @ [CallPlaylist (playlist_id_of url),
                                          CallPlaylistTracks (playlist_id_of url)]
                                       @ map CallNext (butlast (first_page # more_pages))\<rparr>"
    by (simp add: emit_def)
  show ?thesis using e unfolding w .
qed

text \<open>
  C1: for a playlist URL (the playlist marker and no album marker), when the service
  answers the playlist request and hands out the pages \<open>first_page # more_pages\<close>
  through its cursors, \<open>export_spotify_playlist\<close> returns; it has followed the cursor
  of every page but the last; the rows of its frame are the tracks of the entries of all
  pages in the service's order, the entries without a track left out; and the number of
  rows is the number of entries with a track.
\<close>

theorem export_playlist_all_pages:
  assumes "sub_in ''playlist/'' url" and "\<not> sub_in ''album/'' url"
    and "sp_playlist E (playlist_id_of url) = Inr playlist"
    and "sp_playlist_tracks E (playlist_id_of url) = Inr first_page"
    and "serves E first_page more_pages"
  shows "\<exists>df. export_spotify_playlist E url w
           = Some (Inr (Some df, Some (playlist_name playlist)),
                   w\<lparr>trace := trace w @ [CallPlaylist (playlist_id_of url),
                                          CallPlaylistTracks (playlist_id_of url)]
                                       @ map CallNext (butlast (first_page # more_pages))\<rparr>)
         \<and> df_rows df
             = map (\<lambda>t. [Some (track_name t),
                          Some (join_py '', '' (map artist_name (track_artists t)))])
                 (List.map_filter item_track (concat (map items (first_page # more_pages))))
         \<and> length (df_rows df)
             = length (filter (\<lambda>i. item_track i \<noteq> None)
                         (concat (map items (first_page # more_pages))))"
proof -
  let ?all = "concat (map items (first_page # more_pages))"
  have r: "df_rows (pd_DataFrame (extract_tracks ?all))
             = map (\<lambda>t. [Some (track_name t),
                          Some (join_py '', '' (map artist_name (track_artists t)))])
                 (List.map_filter item_track ?all)"
    by (simp only: df_rows_pd_DataFrame extract_tracks_map_filter map_map)
       (simp add: track_info_def comp_def)
  have l: "length (df_rows (pd_DataFrame (extract_tracks ?all)))
             = length (filter (\<lambda>i. item_track i \<noteq> None) ?all)"
    by (simp only: df_rows_pd_DataFrame length_map length_extract_tracks)
  show ?thesis using export_playlist_result[OF assms, of w] r l by blast
qed

theorem export_playlist_all_pages_witness:
  "sub_in ''playlist/'' playlist_url \<and> \<not> sub_in ''album/'' playlist_url
   \<and> sp_playlist playlist_env (playlist_id_of playlist_url)
       = Inr \<lparr>playlist_name = ''Road Trip'', playlist_total = 3\<rparr>
   \<and> sp_playlist_tracks playlist_env (playlist_id_of playlist_url) = Inr page_one
   \<and> serves playlist_env page_one [page_two]
   \<and> (\<exists>df. export_spotify_playlist playlist_env playlist_url start_world
           = Some (Inr (Some df, Some ''Road Trip''),
                   start_world\<lparr>trace := [CallPlaylist ''37i9'', CallPlaylistTracks ''37i9'',
                                         CallNext page_one]\<rparr>)
         \<and> df_rows df = [[Some ''Alpha'', Some ''Ann, Bob''], [Some ''Gamma'', Some ''Cy'']]
         \<and> length (df_rows df) = 2)"
proof -
  have a: "sub_in ''playlist/'' playlist_url" unfolding playlist_url_def by code_simp
  have b: "\<not> sub_in ''album/'' playlist_url" unfolding playlist_url_def by code_simp
  have i: "playlist_id_of playlist_url = ''37i9''"
    unfolding playlist_url_def playlist_id_of_def split_py_def by code_simp
  have c: "sp_playlist playlist_env (playlist_id_of playlist_url)
       = Inr \<lparr>playlist_name = ''Road Trip'', playlist_total = 3\<rparr>"
    by (simp add: playlist_env_def stub_env_def)
  have d: "sp_playlist_tracks playlist_env (playlist_id_of playlist_url) = Inr page_one"
    by (simp add: playlist_env_def stub_env_def)
  have s: "serves playlist_env page_one [page_two]"
    by (simp add: playlist_env_def stub_env_def page_one_def page_two_def)
  have m: "List.map_filter item_track (concat (map items [page_one, page_two])) = [track_A, track_C]"
    by (simp add: page_one_def page_two_def List.map_filter_simps)
  have t: "trace start_world @ [CallPlaylist ''37i9'', CallPlaylistTracks ''37i9'']
             @ map CallNext (butlast [page_one, page_two])
           = [CallPlaylist ''37i9'', CallPlaylistTracks ''37i9'', CallNext page_one]"
    by (simp add: start_world_def)
  obtain df where
    e: "export_spotify_playlist playlist_env playlist_url start_world
          = Some (Inr (Some df, Some ''Road Trip''),
                  start_world\<lparr>trace := [CallPlaylist ''37i9'', CallPlaylistTracks ''37i9'',
                                        CallNext page_one]\<rparr>)"
    and r: "df_rows df = [[Some ''Alpha'', Some ''Ann, Bob''], [Some ''Gamma'', Some ''Cy'']]"
    using export_playlist_all_pages[OF a b c d s, of start_world]
    unfolding i m t by (auto simp add: track_A_def track_C_def)
  have l: "length (df_rows df) = 2" unfolding r by simp
  show ?thesis using a b c d s e r l by blast
qed

text \<open>
  C10 as stated: on a URL with both markers the id is the text after the first
  \<open>album/\<close> up to the first \<open>?\<close>. \<open>split('album/')[1]\<close> ends at the next
  \<open>album/\<close>, so on \<open>both_markers_url\<close> the id is \<open>AAA/\<close>, not \<open>AAA/album/BBB\<close>.
\<close>

theorem album_id_counterexample:
  "sub_in ''album/'' both_markers_url \<and> sub_in ''playlist/'' both_markers_url
   \<and> album_id_of both_markers_url = ''AAA/''
   \<and> before_first ''?'' (after_first ''album/'' both_markers_url) = ''AAA/album/BBB''
   \<and> album_id_of both_markers_url \<noteq> before_first ''?'' (after_first ''album/'' both_markers_url)"
  unfolding both_markers_url_def album_id_of_def split_py_def by code_simp

text \<open>
  C10 as amended: on a URL with both markers \<open>export_spotify_playlist\<close> takes the album
  branch: it returns, it has called \<open>sp.album\<close> with the extracted id, and it has made
  no call of the playlist branch. The id is the text after the first \<open>album/\<close> up to
  the next \<open>album/\<close> or the first \<open>?\<close>, whichever comes first.
\<close>

theorem album_marker_first:
  assumes "sub_in ''album/'' url" and "sub_in ''playlist/'' url"
  shows "\<exists>r w'. export_spotify_playlist E url w = Some (r, w')
           \<and> CallAlbum (album_id_of url) \<in> set (trace w')
           \<and> filter playlist_event (trace w') = filter playlist_event (trace w)
           \<and> album_id_of url
               = before_first ''?'' (before_first ''album/'' (after_first ''album/'' url))"
proof (cases "sp_album E (album_id_of url)")
  case (Inl e)
  then show ?thesis using assms(1)
    by (cases "is_Exception e")
       (simp_all add: export_spotify_playlist_def Let_def export_failed_def emit_def album_id_of_eq)
next
  case (Inr album)
  then show ?thesis using assms(1)
    by (simp add: export_spotify_playlist_def Let_def emit_def album_id_of_eq)
qed

theorem album_marker_first_witness:
  "sub_in ''album/'' both_markers_url \<and> sub_in ''playlist/'' both_markers_url
   \<and> (\<exists>r w'. export_spotify_playlist stub_env both_markers_url start_world = Some (r, w')
           \<and> CallAlbum ''AAA/'' \<in> set (trace w')
           \<and> filter playlist_event (trace w') = filter playlist_event (trace start_world))"
proof -
  have a: "sub_in ''album/'' both_markers_url" unfolding both_markers_url_def by code_simp
  have p: "sub_in ''playlist/'' both_markers_url" unfolding both_markers_url_def by code_simp
  have i: "album_id_of both_markers_url = ''AAA/''"
    unfolding both_markers_url_def album_id_of_def split_py_def by code_simp
  show ?thesis
    using album_marker_first[OF a p, of stub_env start_world] a p unfolding i by blast
qed

section \<open>Properties of \<open>process_playlist\<close>\<close>

text \<open>
  The stages before the download neither change the working directory nor run anything
  of the download stage, and only \<open>to_csv\<close> writes a file.
\<close>

lemma undisturbed_refl: "undisturbed w w"
  by (simp add: undisturbed_def)

lemma undisturbed_trans: "undisturbed w w1 \<Longrightarrow> undisturbed w1 w2 \<Longrightarrow> undisturbed w w2"
  by (simp add: undisturbed_def)

lemma undisturbed_emit: "\<not> download_event e \<Longrightarrow> undisturbed w (emit e w)"
  by (simp add: undisturbed_def emit_def)

lemma fetch_pages_step:
  assumes ih: "\<And>results tracks w y. f E results tracks w = Some y \<Longrightarrow> undisturbed w (snd y)"
    and eq: "(if truthy (next_url results)
              then case sp_next E results of
                     Inl e \<Rightarrow> Some (Inl e, emit (CallNext results) w)
                   | Inr results' \<Rightarrow>
                       f E results' (tracks @ items results') (emit (CallNext results) w)
              else Some (Inr tracks, w)) = Some y"
  shows "undisturbed w (snd y)"
proof (cases "truthy (next_url results)")
  case False
  then have "y = (Inr tracks, w)" using eq by simp
  then show ?thesis by (simp add: undisturbed_refl)
next
  case True
  note t = this
  show ?thesis
  proof (cases "sp_next E results")
    case (Inl e)
    then have "y = (Inl e, emit (CallNext results) w)" using eq t by simp
    then show ?thesis by (simp add: undisturbed_emit)
  next
    case (Inr results')
    then have "f E results' (tracks @ items results') (emit (CallNext results) w) = Some y"
      using eq t by simp
    then have "undisturbed (emit (CallNext results) w) (snd y)" by (rule ih)
    then show ?thesis
      using undisturbed_trans[OF undisturbed_emit[of "CallNext results" w]] by simp
  qed
qed

lemma fetch_pages_undisturbed:
  "fetch_pages E p tracks w = Some y \<Longrightarrow> undisturbed w (snd y)"
  by (rule fetch_pages.raw_induct[where P = "\<lambda>E p tracks w y. undisturbed w (snd y)"])
     (rule fetch_pages_step, assumption+)

lemma export_failed_undisturbed: "undisturbed w (snd (export_failed e w))"
  by (simp add: export_failed_def undisturbed_emit undisturbed_refl)

lemma export_undisturbed:
  assumes "export_spotify_playlist E url w = Some (r, w')"
  shows "undisturbed w w'"
proof (cases "sub_in ''album/'' url")
  case True
  let ?w1 = "emit (CallAlbum (album_id_of url)) w"
  have u1: "undisturbed w ?w1" by (simp add: undisturbed_emit)
  show ?thesis
  proof (cases "sp_album E (album_id_of url)")
    case (Inl e)
    then have "w' = snd (export_failed e ?w1)"
      using assms True by (simp add: export_spotify_playlist_def Let_def)
    then show ?thesis using undisturbed_trans[OF u1 export_failed_undisturbed] by simp
  next
    case (Inr album)
    then have "w' = ?w1" using assms True by (simp add: export_spotify_playlist_def Let_def)
    then show ?thesis using u1 by simp
  qed
next
  case False
  note na = this
  show ?thesis
  proof (cases "sub_in ''playlist/'' url")
    case False
    then have "w' = emit (Print ''Invalid URL format. Please provide a Spotify playlist or album URL.'') w"
      using assms na by (simp add: export_spotify_playlist_def)
    then show ?thesis by (simp add: undisturbed_emit)
  next
    case True
    let ?i = "playlist_id_of url"
    let ?w1 = "emit (CallPlaylist ?i) w"
    let ?w2 = "emit (CallPlaylistTracks ?i) ?w1"
    have u1: "undisturbed w ?w1" by (simp add: undisturbed_emit)
    have u2: "undisturbed w ?w2" by (rule undisturbed_trans[OF u1]) (simp add: undisturbed_emit)
    show ?thesis
    proof (cases "sp_playlist E ?i")
      case (Inl e)
      then have "w' = snd (export_failed e ?w1)"
        using assms na True by (simp add: export_spotify_playlist_def Let_def)
      then show ?thesis using undisturbed_trans[OF u1 export_failed_undisturbed] by simp
    next
      case (Inr playlist)
      note pl = this
      show ?thesis
      proof (cases "sp_playlist_tracks E ?i")
        case (Inl e)
        then have "w' = snd (export_failed e ?w2)"
          using assms na True pl by (simp add: export_spotify_playlist_def Let_def)
        then show ?thesis using undisturbed_trans[OF u2 export_failed_undisturbed] by simp
      next
        case (Inr results)
        note rs = this
        show ?thesis
        proof (cases "fetch_pages E results (items results) ?w2")
          case None
          then show ?thesis using assms na True pl rs
            by (simp add: export_spotify_playlist_def Let_def)
        next
          case (Some y)
          obtain fr w3 where y: "y = (fr, w3)" by (cases y)
          have u3: "undisturbed w w3"
            using undisturbed_trans[OF u2 fetch_pages_undisturbed[OF Some]] y by simp
          show ?thesis
          proof (cases fr)
            case (Inl e)
            then have "w' = snd (export_failed e w3)"
              using assms na True pl rs Some y by (simp add: export_spotify_playlist_def Let_def)
            then show ?thesis using undisturbed_trans[OF u3 export_failed_undisturbed] by simp
          next
            case (Inr tracks)
            then have "w' = w3"
              using assms na True pl rs Some y by (simp add: export_spotify_playlist_def Let_def)
            then show ?thesis using u3 by simp
          qed
        qed
      qed
    qed
  qed
qed

lemma search_failed_undisturbed: "undisturbed w (snd (search_failed q e w))"
  by (simp add: search_failed_def undisturbed_emit undisturbed_refl)

lemma get_youtube_link_undisturbed: "undisturbed w (snd (get_youtube_link E song artist w))"
proof -
  let ?q = "search_query song artist"
  have u1: "undisturbed w (emit (CallSearch ?q) w)" by (simp add: undisturbed_emit)
  have "undisturbed w (snd (search_failed ?q e (emit (CallSearch ?q) w)))" for e
    by (rule undisturbed_trans[OF u1 search_failed_undisturbed])
  then show ?thesis
    by (simp add: get_youtube_link_def Let_def search_failed_undisturbed u1
        split: option.split sum.split list.split)
qed

lemma apply_rows_undisturbed: "undisturbed w (snd (apply_rows E cols rows w))"
proof (induction rows arbitrary: w)
  case Nil
  then show ?case by (simp add: undisturbed_refl)
next
  case (Cons r rows)
  show ?case
  proof (cases "row_get cols r ''Track Name''")
    case (Inl e)
    then show ?thesis by (simp add: undisturbed_refl)
  next
    case (Inr song)
    note s = this
    show ?thesis
    proof (cases "row_get cols r ''Artist Name(s)''")
      case (Inl e)
      then show ?thesis using s by (simp add: undisturbed_refl)
    next
      case (Inr artist)
      obtain g w1 where g: "get_youtube_link E (py_str song) artist w = (g, w1)"
        by (cases "get_youtube_link E (py_str song) artist w")
      have u1: "undisturbed w w1" using get_youtube_link_undisturbed[of w E "py_str song" artist] g by simp
      have u2: "undisturbed w (snd (apply_rows E cols rows w1))"
        by (rule undisturbed_trans[OF u1 Cons.IH])
      show ?thesis using s Inr g u1 u2
        by (cases g; cases "apply_rows E cols rows w1") (auto split: sum.split)
    qed
  qed
qed

lemma add_youtube_columns_undisturbed: "undisturbed w (snd (add_youtube_columns E df w))"
  using apply_rows_undisturbed[of w E "df_columns df" "df_rows df"]
  by (auto simp add: add_youtube_columns_def undisturbed_refl split: prod.split sum.split)

lemma to_csv_undisturbed: "undisturbed w (snd (to_csv E df p w))"
  by (simp add: to_csv_def Let_def undisturbed_def emit_def split: io_outcome.split)

lemma create_playlist_folder_undisturbed: "undisturbed w (snd (create_playlist_folder E name w))"
  by (simp add: create_playlist_folder_def Let_def undisturbed_def emit_def split: option.split)

lemma get_youtube_link_files: "files (snd (get_youtube_link E song artist w)) = files w"
  by (simp add: get_youtube_link_def search_failed_def Let_def emit_def
      split: option.split sum.split list.split)

lemma apply_rows_files: "files (snd (apply_rows E cols rows w)) = files w"
proof (induction rows arbitrary: w)
  case Nil
  then show ?case by simp
next
  case (Cons r rows)
  show ?case
  proof (cases "row_get cols r ''Track Name''")
    case (Inl e)
    then show ?thesis by simp
  next
    case (Inr song)
    note s = this
    show ?thesis
    proof (cases "row_get cols r ''Artist Name(s)''")
      case (Inl e)
      then show ?thesis using s by simp
    next
      case (Inr artist)
      obtain g w1 where g: "get_youtube_link E (py_str song) artist w = (g, w1)"
        by (cases "get_youtube_link E (py_str song) artist w")
      have f1: "files w1 = files w" using get_youtube_link_files[of E "py_str song" artist w] g by simp
      have f2: "files (snd (apply_rows E cols rows w1)) = files w" using Cons.IH[of w1] f1 by simp
      show ?thesis using s Inr g f1 f2
        by (cases g; cases "apply_rows E cols rows w1") (auto split: sum.split)
    qed
  qed
qed

lemma add_youtube_columns_files: "files (snd (add_youtube_columns E df w)) = files w"
  using apply_rows_files[of E "df_columns df" "df_rows df" w]
  by (auto simp add: add_youtube_columns_def split: prod.split sum.split)

lemma download_except_files: "files (snd (download_except e w)) = files w"
  by (cases e) (simp_all add: emit_def)

lemma download_try_files: "files (snd (download_try E links w)) = files w"
  by (simp add: download_try_def Let_def download_except_files emit_def split: option.split sum.split)

lemma os_chdir_files: "files (snd (os_chdir E p w)) = files w"
  by (simp add: os_chdir_def Let_def emit_def split: option.split)

lemma download_songs_files: "files (snd (download_songs E links folder w)) = files w"
proof (cases "links = [] \<or> folder = []")
  case True
  then show ?thesis by (auto simp add: download_songs_def emit_def)
next
  case False
  obtain r1 w1 where c1: "os_chdir E folder w = (r1, w1)" by (cases "os_chdir E folder w")
  obtain r w2 where c2: "download_try E links w1 = (r, w2)" by (cases "download_try E links w1")
  obtain r3 w3 where c3: "os_chdir E (cwd w) w2 = (r3, w3)" by (cases "os_chdir E (cwd w) w2")
  have f1: "files w1 = files w" using os_chdir_files[of E folder w] c1 by simp
  have f2: "files w2 = files w" using download_try_files[of E links w1] c2 f1 by simp
  have f3: "files w3 = files w" using os_chdir_files[of E "cwd w" w2] c3 f2 by simp
  show ?thesis using False c1 c2 c3 f1 f2 f3
    by (auto simp add: download_songs_def split: option.split)
qed

lemma get_youtube_link_fst:
  "fst (get_youtube_link E song artist w) = fst (get_youtube_link E song artist w')"
  by (simp add: get_youtube_link_def search_failed_def Let_def split: option.split sum.split list.split)

lemma row_get_track_name:
  "row_get [''Track Name'', ''Artist Name(s)''] [Some n, Some a] ''Track Name'' = Inr (Some n)"
  by (simp add: row_get_def)

lemma row_get_artist_names:
  "row_get [''Track Name'', ''Artist Name(s)''] [Some n, Some a] ''Artist Name(s)'' = Inr (Some a)"
  by (simp add: row_get_def)

lemma apply_rows_matches:
  "apply_rows E [''Track Name'', ''Artist Name(s)''] (map (\<lambda>(n, a). [Some n, Some a]) td) w = (Inr ms, w1)
   \<Longrightarrow> map Inr ms = map (\<lambda>(n, a). fst (get_youtube_link E n (Some a) w0)) td"
proof (induction td arbitrary: w ms w1)
  case Nil
  then show ?case by simp
next
  case (Cons x td)
  obtain n a where x: "x = (n, a)" by (cases x)
  obtain r wa where g: "get_youtube_link E n (Some a) w = (r, wa)"
    by (cases "get_youtube_link E n (Some a) w")
  from Cons.prems obtain m where r: "r = Inr m"
    by (cases r) (simp_all add: x g row_get_track_name row_get_artist_names)
  obtain rr wb where rest: "apply_rows E [''Track Name'', ''Artist Name(s)'']
        (map (\<lambda>(n, a). [Some n, Some a]) td) wa = (rr, wb)"
    by (cases "apply_rows E [''Track Name'', ''Artist Name(s)''] (map (\<lambda>(n, a). [Some n, Some a]) td) wa")
  from Cons.prems obtain ms' where rr: "rr = Inr ms'" and ms: "ms = m # ms'"
    by (cases rr) (auto simp add: x g r rest row_get_track_name row_get_artist_names)
  have ih: "map Inr ms' = map (\<lambda>(n, a). fst (get_youtube_link E n (Some a) w0)) td"
    using Cons.IH[of wa ms' wb] rest rr by simp
  have "fst (get_youtube_link E n (Some a) w0) = Inr m"
    using get_youtube_link_fst[of E n "Some a" w0 w] g r by simp
  then show ?case using ih by (simp add: x ms)
qed

lemma add_youtube_columns_frame:
  assumes "fst (add_youtube_columns E (pd_DataFrame td) w) = Inr df"
  shows "td \<noteq> [] \<and> (\<exists>ms w1.
           apply_rows E [''Track Name'', ''Artist Name(s)''] (map (\<lambda>(n, a). [Some n, Some a]) td) w
             = (Inr ms, w1)
         \<and> df = \<lparr>df_columns = [''Track Name'', ''Artist Name(s)'', ''YouTube Link'', ''YouTube Video Title''],
                 df_rows = map (\<lambda>(r, (l, t)). r @ [l, t])
                             (zip (map (\<lambda>(n, a). [Some n, Some a]) td) ms)\<rparr>)"
proof -
  have ne: "td \<noteq> []" using assms by (auto simp add: add_youtube_columns_def pd_DataFrame_def)
  obtain r w1 where a: "apply_rows E [''Track Name'', ''Artist Name(s)'']
         (map (\<lambda>(n, a). [Some n, Some a]) td) w = (r, w1)"
    by (cases "apply_rows E [''Track Name'', ''Artist Name(s)''] (map (\<lambda>(n, a). [Some n, Some a]) td) w")
  show ?thesis using assms ne a
    by (cases r) (auto simp add: add_youtube_columns_def pd_DataFrame_def)
qed

lemma csv_rows_zip:
  "length ms = length td \<Longrightarrow>
   map (map cell_text) (map (\<lambda>(r, (l, t)). r @ [l, t]) (zip (map (\<lambda>(n, a). [Some n, Some a]) td) ms))
     = map (\<lambda>((n, a), (l, t)). [n, a, cell_text l, cell_text t]) (zip td ms)"
proof (induction td arbitrary: ms)
  case Nil
  then show ?case by simp
next
  case (Cons x td)
  then obtain m ms' where "ms = m # ms'" by (cases ms) auto
  then show ?case using Cons by (cases x; cases m) simp
qed

lemma demo_matches:
  "add_youtube_columns (E\<lparr>yt_build := None, yt_execute := (\<lambda>q. Inr [])\<rparr>) (pd_DataFrame demo_tracks) start_world
     = (Inr \<lparr>df_columns = csv_header,
             df_rows = [[Some ''Alpha'', Some ''Ann, Bob'', None, None],
                        [Some ''Gamma'', Some ''Cy'', None, None]]\<rparr>,
        start_world\<lparr>trace := [CallSearch ''Alpha lyrics Ann, Bob'', CallSearch ''Gamma lyrics Cy'']\<rparr>)"
  by (simp add: add_youtube_columns_def pd_DataFrame_def demo_tracks_def row_get_def
      get_youtube_link_def search_query_def Let_def emit_def start_world_def csv_header_def)

lemma demo_export:
  "export_spotify_playlist playlist_env playlist_url start_world
     = Some (Inr (Some (pd_DataFrame demo_tracks), Some ''Road Trip''),
             start_world\<lparr>trace := [CallPlaylist ''37i9'', CallPlaylistTracks ''37i9'',
                                   CallNext page_one]\<rparr>)"
proof -
  have a: "sub_in ''playlist/'' playlist_url" unfolding playlist_url_def by code_simp
  have b: "\<not> sub_in ''album/'' playlist_url" unfolding playlist_url_def by code_simp
  have i: "playlist_id_of playlist_url = ''37i9''"
    unfolding playlist_url_def playlist_id_of_def split_py_def by code_simp
  have c: "sp_playlist playlist_env (playlist_id_of playlist_url)
       = Inr \<lparr>playlist_name = ''Road Trip'', playlist_total = 3\<rparr>"
    by (simp add: playlist_env_def stub_env_def)
  have d: "sp_playlist_tracks playlist_env (playlist_id_of playlist_url) = Inr page_one"
    by (simp add: playlist_env_def stub_env_def)
  have s: "serves playlist_env page_one [page_two]"
    by (simp add: playlist_env_def stub_env_def page_one_def page_two_def)
  have x: "extract_tracks (concat (map items [page_one, page_two])) = demo_tracks"
    by (simp add: page_one_def page_two_def track_info_def track_A_def track_C_def demo_tracks_def)
  have t: "trace start_world @ [CallPlaylist ''37i9'', CallPlaylistTracks ''37i9'']
             @ map CallNext (butlast [page_one, page_two])
           = [CallPlaylist ''37i9'', CallPlaylistTracks ''37i9'', CallNext page_one]"
    by (simp add: start_world_def)
  show ?thesis
    using export_playlist_result[OF a b c d s, of start_world] unfolding i x t by simp
qed

lemma demo_no_matches:
  "yt_build E = None \<Longrightarrow> (\<And>q. yt_execute E q = Inr []) \<Longrightarrow>
   fst (add_youtube_columns E (pd_DataFrame demo_tracks) w) = Inr demo_result"
  by (simp add: add_youtube_columns_def pd_DataFrame_def demo_tracks_def row_get_def
      get_youtube_link_def search_query_def Let_def demo_result_def csv_header_def)

lemma sanitize_road_trip: "sanitize_filename ''Road Trip'' = ''Road Trip''"
  by code_simp

text \<open>
  A collection without tracks gives a frame without columns, on which the match stage
  raises: \<open>process_tracks\<close> ends with this exception before any file is written.
\<close>

lemma empty_collection_raises:
  "process_tracks E (pd_DataFrame []) folder w
     = (Inl (Error ''integer division or modulo by zero''), w)"
  by (simp add: process_tracks_def add_youtube_columns_def pd_DataFrame_def)

text \<open>
  The lines \<open>to_csv\<close> writes for a result set of the match stage: the header, then one
  line per source track in the order of the tracks, with the link and the title that
  \<open>get_youtube_link\<close> returned for the track.
\<close>

lemma to_csv_rows:
  assumes "fst (add_youtube_columns E (pd_DataFrame track_data) w) = Inr df"
    and "csv_io E p = Completes"
  shows "\<exists>ms. map Inr ms = map (\<lambda>(n, a). fst (get_youtube_link E n (Some a) w)) track_data
          \<and> fst (to_csv E df p w') = None
          \<and> files (snd (to_csv E df p w')) p
              = Some ([''Track Name'', ''Artist Name(s)'', ''YouTube Link'', ''YouTube Video Title'']
                      # map (\<lambda>((n, a), (l, t)). [n, a, cell_text l, cell_text t]) (zip track_data ms))"
proof -
  from add_youtube_columns_frame[OF assms(1)] obtain ms w1 where
    a: "apply_rows E [''Track Name'', ''Artist Name(s)''] (map (\<lambda>(n, a). [Some n, Some a]) track_data) w
             = (Inr ms, w1)"
    and d: "df = \<lparr>df_columns = [''Track Name'', ''Artist Name(s)'', ''YouTube Link'', ''YouTube Video Title''],
                 df_rows = map (\<lambda>(r, (l, t)). r @ [l, t])
                             (zip (map (\<lambda>(n, a). [Some n, Some a]) track_data) ms)\<rparr>"
    by blast
  have m: "map Inr ms = map (\<lambda>(n, a). fst (get_youtube_link E n (Some a) w)) track_data"
    by (rule apply_rows_matches[OF a])
  have "length (map (Inr :: _ \<Rightarrow> exn + _) ms) = length track_data" unfolding m by simp
  then have len: "length ms = length track_data" by simp
  have c: "csv_lines df = [''Track Name'', ''Artist Name(s)'', ''YouTube Link'', ''YouTube Video Title'']
                      # map (\<lambda>((n, a), (l, t)). [n, a, cell_text l, cell_text t]) (zip track_data ms)"
    unfolding csv_lines_def d using csv_rows_zip[OF len] by simp
  have "fst (to_csv E df p w') = None \<and> files (snd (to_csv E df p w')) p = Some (csv_lines df)"
    using assms(2) by (simp add: to_csv_def Let_def emit_def)
  then show ?thesis using m c by auto
qed

text \<open>
  The file \<open>process_tracks\<close> leaves in the folder when the match stage has yielded a
  result set and the write completes: the table of the result set, that is the header
  and one line per source track in the order of the tracks, a missing link or title
  written as the empty cell.
\<close>

lemma process_tracks_completes:
  assumes "fst (add_youtube_columns E df w) = Inr result_set"
    and "csv_io E (os_path_join folder ''spotify_playlist_with_youtube.csv'') = Completes"
  shows "files (snd (process_tracks E df folder w))
           (os_path_join folder ''spotify_playlist_with_youtube.csv'')
         = Some (csv_lines result_set)"
proof -
  let ?p = "os_path_join folder ''spotify_playlist_with_youtube.csv''"
  obtain w1 where a: "add_youtube_columns E df w = (Inr result_set, w1)"
    using assms(1) by (cases "add_youtube_columns E df w") simp
  let ?w2 = "(emit (ToCsv ?p) w1)\<lparr>files := (files (emit (ToCsv ?p) w1))(?p \<mapsto> csv_lines result_set)\<rparr>"
  have t: "to_csv E result_set ?p w1 = (None, ?w2)" using assms(2) by (simp add: to_csv_def Let_def)
  have f2: "files ?w2 ?p = Some (csv_lines result_set)" by simp
  show ?thesis
  proof (cases "notna_values result_set ''YouTube Link''")
    case (Inl e)
    then show ?thesis using a t f2 by (simp add: process_tracks_def Let_def)
  next
    case (Inr links)
    show ?thesis
    proof (cases "links = []")
      case True
      then show ?thesis using a t Inr by (simp add: process_tracks_def Let_def emit_def)
    next
      case False
      have "files (snd (download_songs E links folder ?w2)) = files ?w2"
        by (rule download_songs_files)
      then show ?thesis using a t Inr False by (simp add: process_tracks_def Let_def)
    qed
  qed
qed

lemma process_tracks_written_csv:
  assumes "fst (add_youtube_columns E (pd_DataFrame track_data) w) = Inr df"
    and "csv_io E (os_path_join folder ''spotify_playlist_with_youtube.csv'') = Completes"
  shows "\<exists>ms. map Inr ms = map (\<lambda>(n, a). fst (get_youtube_link E n (Some a) w)) track_data
          \<and> files (snd (process_tracks E (pd_DataFrame track_data) folder w))
                (os_path_join folder ''spotify_playlist_with_youtube.csv'')
              = Some ([''Track Name'', ''Artist Name(s)'', ''YouTube Link'', ''YouTube Video Title'']
                      # map (\<lambda>((n, a), (l, t)). [n, a, cell_text l, cell_text t]) (zip track_data ms))"
proof -
  let ?p = "os_path_join folder ''spotify_playlist_with_youtube.csv''"
  obtain ms where
    m: "map Inr ms = map (\<lambda>(n, a). fst (get_youtube_link E n (Some a) w)) track_data"
    and f: "files (snd (to_csv E df ?p w)) ?p
            = Some ([''Track Name'', ''Artist Name(s)'', ''YouTube Link'', ''YouTube Video Title'']
                    # map (\<lambda>((n, a), (l, t)). [n, a, cell_text l, cell_text t]) (zip track_data ms))"
    using to_csv_rows[OF assms, of w] by blast
  have "files (snd (to_csv E df ?p w)) ?p = Some (csv_lines df)"
    using assms(2) by (simp add: to_csv_def Let_def emit_def)
  then have c: "csv_lines df
            = [''Track Name'', ''Artist Name(s)'', ''YouTube Link'', ''YouTube Video Title'']
                    # map (\<lambda>((n, a), (l, t)). [n, a, cell_text l, cell_text t]) (zip track_data ms)"
    using f by simp
  show ?thesis using m process_tracks_completes[OF assms] unfolding c by blast
qed

lemma process_tracks_written_csv_example:
  "files (snd (process_tracks search_env (pd_DataFrame demo_tracks) ''Mix'' start_world))
        ''Mix/spotify_playlist_with_youtube.csv''
       = Some [[''Track Name'', ''Artist Name(s)'', ''YouTube Link'', ''YouTube Video Title''],
               [''Alpha'', ''Ann, Bob'', ''https://www.youtube.com/watch?v=abc'', ''Alpha (Lyrics)''],
               [''Gamma'', ''Cy'', '''', '''']]"
proof -
  have p: "os_path_join ''Mix'' ''spotify_playlist_with_youtube.csv''
             = ''Mix/spotify_playlist_with_youtube.csv''"
    by (simp add: os_path_join_def)
  have a: "fst (add_youtube_columns search_env (pd_DataFrame demo_tracks) start_world) = Inr found_result"
    by (simp add: add_youtube_columns_def pd_DataFrame_def demo_tracks_def row_get_def
      get_youtube_link_def search_query_def Let_def found_result_def csv_header_def
      search_env_def stub_env_def)
  have io: "csv_io search_env (os_path_join ''Mix'' ''spotify_playlist_with_youtube.csv'') = Completes"
    by (simp add: search_env_def stub_env_def)
  have g: "map (\<lambda>(n, a). fst (get_youtube_link search_env n (Some a) start_world)) demo_tracks
            = [Inr (Some ''https://www.youtube.com/watch?v=abc'', Some ''Alpha (Lyrics)''),
               Inr (None, None)]"
    by (simp add: demo_tracks_def get_youtube_link_def search_query_def Let_def
        search_env_def stub_env_def)
  obtain ms where
    m: "map Inr ms = map (\<lambda>(n, a). fst (get_youtube_link search_env n (Some a) start_world)) demo_tracks"
    and f: "files (snd (process_tracks search_env (pd_DataFrame demo_tracks) ''Mix'' start_world))
              (os_path_join ''Mix'' ''spotify_playlist_with_youtube.csv'')
            = Some ([''Track Name'', ''Artist Name(s)'', ''YouTube Link'', ''YouTube Video Title'']
                    # map (\<lambda>((n, a), (l, t)). [n, a, cell_text l, cell_text t]) (zip demo_tracks ms))"
    using process_tracks_written_csv[OF a io] by blast
  have "ms = [(Some ''https://www.youtube.com/watch?v=abc'', Some ''Alpha (Lyrics)''), (None, None)]"
    using m unfolding g by auto
  then show ?thesis using f unfolding p by (simp add: demo_tracks_def)
qed

text \<open>
  The run on a playlist without tracks: the export succeeds with a frame without columns,
  the folder is created, and the match stage raises.
\<close>

lemma playlist_url_facts:
  "sub_in ''playlist/'' playlist_url" "\<not> sub_in ''album/'' playlist_url"
  "playlist_id_of playlist_url = ''37i9''"
  unfolding playlist_url_def playlist_id_of_def split_py_def by code_simp+

lemma empty_export:
  assumes "sp_playlist E ''37i9'' = Inr \<lparr>playlist_name = ''Road Trip'', playlist_total = n\<rparr>"
    and "sp_playlist_tracks E ''37i9'' = Inr page"
    and "next_url page = None" and "extract_tracks (items page) = []"
  shows "export_spotify_playlist E playlist_url start_world
     = Some (Inr (Some (pd_DataFrame []), Some ''Road Trip''),
             start_world\<lparr>trace := [CallPlaylist ''37i9'', CallPlaylistTracks ''37i9'']\<rparr>)"
proof -
  have s: "serves E page []" using assms(3) by simp
  have t: "trace start_world @ [CallPlaylist ''37i9'', CallPlaylistTracks ''37i9'']
             @ map CallNext (butlast [page])
           = [CallPlaylist ''37i9'', CallPlaylistTracks ''37i9'']"
    by (simp add: start_world_def)
  have x: "extract_tracks (concat (map items [page])) = []" using assms(4) by simp
  show ?thesis
    using export_playlist_result[OF playlist_url_facts(1) playlist_url_facts(2), of E _ page "[]" start_world]
      assms(1) assms(2) s
    unfolding playlist_url_facts(3) x t by simp
qed

lemma empty_process:
  assumes "export_spotify_playlist E playlist_url start_world
     = Some (Inr (Some (pd_DataFrame []), Some ''Road Trip''),
             start_world\<lparr>trace := [CallPlaylist ''37i9'', CallPlaylistTracks ''37i9'']\<rparr>)"
    and "os_makedirs E ''Road Trip'' = None"
  shows "process_playlist E playlist_url start_world
     = Some (Inl (Error ''integer division or modulo by zero''),
             start_world\<lparr>trace := [CallPlaylist ''37i9'', CallPlaylistTracks ''37i9'',
                                   Makedirs ''Road Trip'', Print ''Created folder: Road Trip'']\<rparr>)"
  by (simp add: process_playlist_def assms create_playlist_folder_def sanitize_road_trip Let_def
      empty_collection_raises emit_def)

text \<open>
  C2: for every result set the written CSV file has the four columns in their fixed
  order and one line per source track. For a collection with tracks this holds of the
  file \<open>process_tracks\<close> writes (\<open>process_tracks_written_csv\<close>). For a collection
  without tracks it does not: on the playlist without entries \<open>process_playlist\<close>
  ends with the exception of the match stage after the folder was created, and no CSV
  file exists, not even one with the header alone.
\<close>

theorem empty_playlist_writes_no_csv:
  "process_playlist empty_env playlist_url start_world
     = Some (Inl (Error ''integer division or modulo by zero''),
             start_world\<lparr>trace := [CallPlaylist ''37i9'', CallPlaylistTracks ''37i9'',
                                   Makedirs ''Road Trip'', Print ''Created folder: Road Trip'']\<rparr>)
   \<and> files (start_world\<lparr>trace := [CallPlaylist ''37i9'', CallPlaylistTracks ''37i9'',
                                   Makedirs ''Road Trip'', Print ''Created folder: Road Trip'']\<rparr>)
        ''Road Trip/spotify_playlist_with_youtube.csv'' = None"
proof -
  have e: "export_spotify_playlist empty_env playlist_url start_world
     = Some (Inr (Some (pd_DataFrame []), Some ''Road Trip''),
             start_world\<lparr>trace := [CallPlaylist ''37i9'', CallPlaylistTracks ''37i9'']\<rparr>)"
    by (rule empty_export[where n = 0 and page = empty_page])
       (simp_all add: empty_env_def stub_env_def empty_page_def)
  have m: "os_makedirs empty_env ''Road Trip'' = None" by (simp add: empty_env_def stub_env_def)
  show ?thesis using empty_process[OF e m] by (simp add: start_world_def)
qed

text \<open>
  C6 as stated: the write is atomic, a failed or interrupted write leaves no partial
  file. In the run below the write is interrupted after the header line: the exception
  leaves \<open>process_tracks\<close>, and the target path, which did not exist before, holds the
  header without the two rows.
\<close>

theorem csv_write_partial_file:
  "fst (process_tracks interrupted_env (pd_DataFrame demo_tracks) ''Mix'' start_world)
     = Inl KeyboardInterrupt
   \<and> files (snd (process_tracks interrupted_env (pd_DataFrame demo_tracks) ''Mix'' start_world))
       ''Mix/spotify_playlist_with_youtube.csv''
     = Some [[''Track Name'', ''Artist Name(s)'', ''YouTube Link'', ''YouTube Video Title'']]
   \<and> files (snd (process_tracks interrupted_env (pd_DataFrame demo_tracks) ''Mix'' start_world))
       ''Mix/spotify_playlist_with_youtube.csv''
     \<noteq> Some (csv_lines demo_result)
   \<and> files start_world ''Mix/spotify_playlist_with_youtube.csv'' = None"
proof -
  have e: "interrupted_env = interrupted_env\<lparr>yt_build := None, yt_execute := (\<lambda>q. Inr [])\<rparr>"
    by (simp add: interrupted_env_def stub_env_def)
  have p: "os_path_join ''Mix'' ''spotify_playlist_with_youtube.csv''
             = ''Mix/spotify_playlist_with_youtube.csv''"
    by (simp add: os_path_join_def)
  have io: "csv_io interrupted_env ''Mix/spotify_playlist_with_youtube.csv'' = FailsAfter 1 KeyboardInterrupt"
    by (simp add: interrupted_env_def)
  have a: "add_youtube_columns interrupted_env (pd_DataFrame demo_tracks) start_world
     = (Inr \<lparr>df_columns = csv_header,
             df_rows = [[Some ''Alpha'', Some ''Ann, Bob'', None, None],
                        [Some ''Gamma'', Some ''Cy'', None, None]]\<rparr>,
        start_world\<lparr>trace := [CallSearch ''Alpha lyrics Ann, Bob'', CallSearch ''Gamma lyrics Cy'']\<rparr>)"
    by (subst e) (rule demo_matches)
  show ?thesis
    unfolding process_tracks_def a
    by (simp add: Let_def p to_csv_def io csv_lines_def csv_header_def emit_def start_world_def
        demo_result_def)
qed

text \<open>
  C6 as amended: \<open>to_csv\<close> writes straight into the target path. When the write
  completes the file holds the full table; when the file cannot be opened the exception
  leaves \<open>process_tracks\<close> and no file is touched; when the write fails or is
  interrupted after \<open>k\<close> lines the exception leaves \<open>process_tracks\<close> and the file
  holds these \<open>k\<close> lines.
\<close>

theorem csv_write_outcomes:
  assumes "fst (add_youtube_columns E df w) = Inr result_set"
  shows "(csv_io E (os_path_join folder ''spotify_playlist_with_youtube.csv'') = Completes
            \<longrightarrow> files (snd (process_tracks E df folder w))
                  (os_path_join folder ''spotify_playlist_with_youtube.csv'')
                = Some (csv_lines result_set))
       \<and> (csv_io E (os_path_join folder ''spotify_playlist_with_youtube.csv'') = OpenFails e
            \<longrightarrow> fst (process_tracks E df folder w) = Inl e
              \<and> files (snd (process_tracks E df folder w)) = files w)
       \<and> (csv_io E (os_path_join folder ''spotify_playlist_with_youtube.csv'') = FailsAfter k e
            \<longrightarrow> fst (process_tracks E df folder w) = Inl e
              \<and> files (snd (process_tracks E df folder w))
                  (os_path_join folder ''spotify_playlist_with_youtube.csv'')
                = Some (take k (csv_lines result_set)))"
proof -
  let ?p = "os_path_join folder ''spotify_playlist_with_youtube.csv''"
  obtain w1 where a: "add_youtube_columns E df w = (Inr result_set, w1)"
    using assms by (cases "add_youtube_columns E df w") simp
  have f1: "files w1 = files w" using add_youtube_columns_files[of E df w] a by simp
  have c: "csv_io E ?p = Completes \<Longrightarrow> files (snd (process_tracks E df folder w)) ?p = Some (csv_lines result_set)"
  proof -
    assume io: "csv_io E ?p = Completes"
    let ?w2 = "(emit (ToCsv ?p) w1)\<lparr>files := (files (emit (ToCsv ?p) w1))(?p \<mapsto> csv_lines result_set)\<rparr>"
    have t: "to_csv E result_set ?p w1 = (None, ?w2)" using io by (simp add: to_csv_def Let_def)
    have f2: "files ?w2 ?p = Some (csv_lines result_set)" by simp
    show ?thesis
    proof (cases "notna_values result_set ''YouTube Link''")
      case (Inl e)
      then show ?thesis using a t f2 by (simp add: process_tracks_def Let_def)
    next
      case (Inr links)
      show ?thesis
      proof (cases "links = []")
        case True
        then show ?thesis using a t Inr by (simp add: process_tracks_def Let_def emit_def)
      next
        case False
        have "files (snd (download_songs E links folder ?w2)) = files ?w2"
          by (rule download_songs_files)
        then show ?thesis using a t Inr False by (simp add: process_tracks_def Let_def)
      qed
    qed
  qed
  have o: "csv_io E ?p = OpenFails e \<Longrightarrow> fst (process_tracks E df folder w) = Inl e
              \<and> files (snd (process_tracks E df folder w)) = files w"
    using a f1 by (simp add: process_tracks_def Let_def to_csv_def emit_def)
  have f: "csv_io E ?p = FailsAfter k e \<Longrightarrow> fst (process_tracks E df folder w) = Inl e
              \<and> files (snd (process_tracks E df folder w)) ?p = Some (take k (csv_lines result_set))"
    using a by (simp add: process_tracks_def Let_def to_csv_def emit_def)
  show ?thesis using c o f by blast
qed

theorem csv_write_outcomes_witness:
  "fst (add_youtube_columns stub_env (pd_DataFrame demo_tracks) start_world) = Inr demo_result
   \<and> csv_io stub_env (os_path_join ''Mix'' ''spotify_playlist_with_youtube.csv'') = Completes
   \<and> files (snd (process_tracks stub_env (pd_DataFrame demo_tracks) ''Mix'' start_world))
       (os_path_join ''Mix'' ''spotify_playlist_with_youtube.csv'')
       = Some (csv_lines demo_result)
   \<and> csv_io denied_env (os_path_join ''Mix'' ''spotify_playlist_with_youtube.csv'')
       = OpenFails (Error ''Permission denied'')
   \<and> fst (process_tracks denied_env (pd_DataFrame demo_tracks) ''Mix'' start_world)
       = Inl (Error ''Permission denied'')
   \<and> files (snd (process_tracks denied_env (pd_DataFrame demo_tracks) ''Mix'' start_world))
       = files start_world
   \<and> csv_io interrupted_env (os_path_join ''Mix'' ''spotify_playlist_with_youtube.csv'')
       = FailsAfter 1 KeyboardInterrupt
   \<and> fst (process_tracks interrupted_env (pd_DataFrame demo_tracks) ''Mix'' start_world)
       = Inl KeyboardInterrupt
   \<and> files (snd (process_tracks interrupted_env (pd_DataFrame demo_tracks) ''Mix'' start_world))
       (os_path_join ''Mix'' ''spotify_playlist_with_youtube.csv'')
       = Some [csv_header]"
proof -
  have a1: "fst (add_youtube_columns stub_env (pd_DataFrame demo_tracks) start_world) = Inr demo_result"
    by (rule demo_no_matches) (simp_all add: stub_env_def)
  have a2: "fst (add_youtube_columns denied_env (pd_DataFrame demo_tracks) start_world) = Inr demo_result"
    by (rule demo_no_matches) (simp_all add: denied_env_def stub_env_def)
  have a3: "fst (add_youtube_columns interrupted_env (pd_DataFrame demo_tracks) start_world) = Inr demo_result"
    by (rule demo_no_matches) (simp_all add: interrupted_env_def stub_env_def)
  have io1: "csv_io stub_env (os_path_join ''Mix'' ''spotify_playlist_with_youtube.csv'') = Completes"
    by (simp add: stub_env_def)
  have io2: "csv_io denied_env (os_path_join ''Mix'' ''spotify_playlist_with_youtube.csv'')
       = OpenFails (Error ''Permission denied'')"
    by (simp add: denied_env_def)
  have io3: "csv_io interrupted_env (os_path_join ''Mix'' ''spotify_playlist_with_youtube.csv'')
       = FailsAfter 1 KeyboardInterrupt"
    by (simp add: interrupted_env_def)
  have t: "take 1 (csv_lines demo_result) = [csv_header]"
    by (simp add: csv_lines_def demo_result_def)
  show ?thesis
    using csv_write_outcomes[OF a1, of "''Mix''"] csv_write_outcomes[OF a2, of "''Mix''" "Error ''Permission denied''"]
      csv_write_outcomes[OF a3, of "''Mix''" KeyboardInterrupt 1] a1 io1 io2 io3
    unfolding t by simp
qed

text \<open>
  A collection with tracks of which none has a link: when the pipeline has exported the
  collection, created the folder, resolved the matches into a result set and written the
  table, and no row of the result set has a link, \<open>process_playlist\<close> returns
  \<open>False\<close> normally, its last printed line is the "no links" message, no event of the
  download stage has happened and the working directory is the one before the call.
\<close>

lemma no_links_outcome:
  assumes ex: "export_spotify_playlist E url w = Some (Inr (Some df, Some name), w1)"
    and mk: "os_makedirs E (sanitize_filename name) = None"
    and ne: "sanitize_filename name \<noteq> []"
    and rs: "fst (add_youtube_columns E df (snd (create_playlist_folder E name w1))) = Inr result_set"
    and io: "csv_io E (os_path_join (sanitize_filename name) ''spotify_playlist_with_youtube.csv'')
               = Completes"
    and nl: "notna_values result_set ''YouTube Link'' = Inr []"
  shows "\<exists>w'. process_playlist E url w = Some (Inr False, w')
           \<and> last (trace w') = Print no_links_message
           \<and> filter download_event (trace w') = filter download_event (trace w)
           \<and> cwd w' = cwd w"
proof -
  let ?folder = "sanitize_filename name"
  let ?p = "os_path_join ?folder ''spotify_playlist_with_youtube.csv''"
  obtain w2 where cf: "create_playlist_folder E name w1 = (Inr (Some ?folder), w2)"
    using mk by (simp add: create_playlist_folder_def Let_def)
  obtain w3 where ay: "add_youtube_columns E df w2 = (Inr result_set, w3)"
    using rs cf by (cases "add_youtube_columns E df w2") simp
  obtain w4 where tc: "to_csv E result_set ?p w3 = (None, w4)"
    using io by (simp add: to_csv_def Let_def)
  have pt: "process_tracks E df ?folder w2 = (Inr False, emit (Print no_links_message) w4)"
    by (simp add: process_tracks_def ay tc nl Let_def)
  have pp: "process_playlist E url w = Some (Inr False, emit (Print no_links_message) w4)"
    by (simp add: process_playlist_def ex cf ne pt)
  have u1: "undisturbed w w1" by (rule export_undisturbed[OF ex])
  have u2: "undisturbed w1 w2" using create_playlist_folder_undisturbed[of w1 E name] cf by simp
  have u3: "undisturbed w2 w3" using add_youtube_columns_undisturbed[of w2 E df] ay by simp
  have u4: "undisturbed w3 w4" using to_csv_undisturbed[of w3 E result_set ?p] tc by simp
  have u: "undisturbed w (emit (Print no_links_message) w4)"
    using undisturbed_trans[OF undisturbed_trans[OF undisturbed_trans[OF undisturbed_trans[OF u1 u2] u3] u4]
        undisturbed_emit[of "Print no_links_message" w4]]
    by simp
  have l: "last (trace (emit (Print no_links_message) w4)) = Print no_links_message"
    by (simp add: emit_def)
  show ?thesis using pp u l unfolding undisturbed_def by blast
qed

lemma no_links_outcome_example:
  "export_spotify_playlist playlist_env playlist_url start_world
     = Some (Inr (Some (pd_DataFrame demo_tracks), Some ''Road Trip''),
             start_world\<lparr>trace := [CallPlaylist ''37i9'', CallPlaylistTracks ''37i9'',
                                   CallNext page_one]\<rparr>)
   \<and> os_makedirs playlist_env (sanitize_filename ''Road Trip'') = None
   \<and> sanitize_filename ''Road Trip'' \<noteq> []
   \<and> fst (add_youtube_columns playlist_env (pd_DataFrame demo_tracks)
             (snd (create_playlist_folder playlist_env ''Road Trip''
                     (start_world\<lparr>trace := [CallPlaylist ''37i9'', CallPlaylistTracks ''37i9'',
                                           CallNext page_one]\<rparr>))))
       = Inr demo_result
   \<and> csv_io playlist_env (os_path_join (sanitize_filename ''Road Trip'')
                             ''spotify_playlist_with_youtube.csv'') = Completes
   \<and> notna_values demo_result ''YouTube Link'' = Inr []
   \<and> (\<exists>w'. process_playlist playlist_env playlist_url start_world = Some (Inr False, w')
           \<and> last (trace w') = Print no_links_message
           \<and> filter download_event (trace w') = []
           \<and> cwd w' = ''/home/user'')"
proof -
  have mk: "os_makedirs playlist_env (sanitize_filename ''Road Trip'') = None"
    by (simp add: playlist_env_def stub_env_def)
  have ne: "sanitize_filename ''Road Trip'' \<noteq> []"
    unfolding sanitize_road_trip by simp
  have rs: "fst (add_youtube_columns playlist_env (pd_DataFrame demo_tracks)
             (snd (create_playlist_folder playlist_env ''Road Trip''
                     (start_world\<lparr>trace := [CallPlaylist ''37i9'', CallPlaylistTracks ''37i9'',
                                           CallNext page_one]\<rparr>))))
       = Inr demo_result"
    by (rule demo_no_matches) (simp_all add: playlist_env_def stub_env_def)
  have io: "csv_io playlist_env (os_path_join (sanitize_filename ''Road Trip'')
                             ''spotify_playlist_with_youtube.csv'') = Completes"
    by (simp add: playlist_env_def stub_env_def)
  have nl: "notna_values demo_result ''YouTube Link'' = Inr []"
    by (simp add: notna_values_def demo_result_def csv_header_def row_get_def)
  have s: "filter download_event (trace start_world) = []" "cwd start_world = ''/home/user''"
    by (simp_all add: start_world_def)
  show ?thesis
    using no_links_outcome[OF demo_export mk ne rs io nl] demo_export mk ne rs io nl
    unfolding s by blast
qed

text \<open>
  C9: when no match of the result set has a link, \<open>process_playlist\<close> ends in the
  "no links" outcome and not in a crash. For a collection with tracks this is
  \<open>no_links_outcome\<close>. On the playlist whose only entry is a removed track there is
  no match at all, hence none with a link, and \<open>process_playlist\<close> ends with the
  exception of the match stage: the "no links" line is never printed.
\<close>

theorem removed_only_playlist_crashes:
  "process_playlist removed_env playlist_url start_world
     = Some (Inl (Error ''integer division or modulo by zero''),
             start_world\<lparr>trace := [CallPlaylist ''37i9'', CallPlaylistTracks ''37i9'',
                                   Makedirs ''Road Trip'', Print ''Created folder: Road Trip'']\<rparr>)
   \<and> Print no_links_message
       \<notin> set (trace (start_world\<lparr>trace := [CallPlaylist ''37i9'', CallPlaylistTracks ''37i9'',
                                   Makedirs ''Road Trip'', Print ''Created folder: Road Trip'']\<rparr>))"
proof -
  have e: "export_spotify_playlist removed_env playlist_url start_world
     = Some (Inr (Some (pd_DataFrame []), Some ''Road Trip''),
             start_world\<lparr>trace := [CallPlaylist ''37i9'', CallPlaylistTracks ''37i9'']\<rparr>)"
    by (rule empty_export[where n = 1 and page = removed_page])
       (simp_all add: removed_env_def stub_env_def removed_page_def)
  have m: "os_makedirs removed_env ''Road Trip'' = None" by (simp add: removed_env_def stub_env_def)
  show ?thesis using empty_process[OF e m] by (simp add: no_links_message_def)
qed

end
